theory Spec2Isabelle
  imports Complex_Main "HOL-Library.AList" "HOL-Library.Char_ord" "HOL-Library.List_Lexorder"
    "HOL-Library.Multiset"
begin

section \<open>Data model\<close>

text \<open>
  A value read from an array file is a floating point number or the missing value
  (NaN); it is modelled as \<open>real option\<close>, \<open>None\<close> being NaN. Timestamps and the
  quality bitmask are integers.
\<close>

type_synonym val = "real option"

text \<open>
  The single-pixel dataset built by \<open>_extract_granule_pixel\<close>: the data variable named
  \<open>var_name\<close> along \<open>wavelength\<close>, and the coordinates \<open>wavelength\<close>, \<open>time\<close>,
  \<open>l2_flags\<close>, \<open>lat\<close>, \<open>lon\<close> (the fields \<open>data_var\<close>, \<open>pixel_lat\<close> and
  \<open>pixel_lon\<close> are named apart from the arguments \<open>var_name\<close>, \<open>lat\<close> and \<open>lon\<close>).
\<close>

record pixel =
  data_var :: string
  spectrum :: "val list"
  wavelength :: "val list"
  time :: int
  l2_flags :: int
  pixel_lat :: val
  pixel_lon :: val

text \<open>
  A dataset with a \<open>time\<close> dimension (the result of \<open>xr.concat(..., dim='time')\<close>) is the
  list of its single-pixel records in order; \<open>attrs\<close> are its global attributes.
\<close>

record dataset =
  records :: "pixel list"
  attrs :: "(string \<times> string) list"

section \<open>filter_rrc\<close>

text \<open>
  \<open>ds.where(mask)\<close> keeps the data variable where the mask holds and replaces it by the
  missing value elsewhere; coordinates are not touched.
\<close>

definition masked :: "pixel \<Rightarrow> pixel" where
  "masked r = r\<lparr>spectrum := map (\<lambda>_. None) (spectrum r)\<rparr>"

definition where_ds :: "dataset \<Rightarrow> bool list \<Rightarrow> dataset" where
  "where_ds ds cond =
     ds\<lparr>records := map (\<lambda>(r, m). if m then r else masked r) (zip (records ds) cond)\<rparr>"

definition filter_rrc :: "dataset \<Rightarrow> dataset" where
  "filter_rrc ds =
     (let cond = map (\<lambda>r. and (l2_flags r) (or (push_bit 1 1) (or (push_bit 3 1) (push_bit 5 1))) = 0)
                     (records ds)
      in where_ds ds cond)"

section \<open>Errors, the extractor and the output directory\<close>

text \<open>
  The exceptions the code can meet, by the names of the spec's taxonomy: a failure of the
  catalog collaborator, a failure while reading one granule, a failed write, and
  Python's \<open>ZeroDivisionError\<close> and \<open>NameError\<close>.
\<close>

datatype error =
  CatalogError | ExtractionError | PersistenceError | ZeroDivisionError | NameError

record pace_extractor =
  output_dir :: string
  batch_size :: int

text \<open>
  The persisted state is the content of \<open>output_dir\<close>: an association list from file
  names to the datasets stored under them. Every path of the model is a file name
  inside \<open>output_dir\<close>, that is, \<open>p\<close> stands for \<open>self.output_dir / p\<close>. The
  \<open>trace\<close> records the effects of a run in order.
\<close>

datatype ('g, 'f) event =
    ListCheckpoints
  | OpenGranules "'g list"
  | ExtractPixel 'f
  | WriteFile string
  | DeleteFile string

record ('g, 'f) world =
  files :: "(string \<times> dataset) list"
  trace :: "('g, 'f) event list"

definition path_exists :: "('g, 'f) world \<Rightarrow> string \<Rightarrow> bool" where
  "path_exists w p = (p \<in> set (map fst (files w)))"

definition log_event :: "('g, 'f) event \<Rightarrow> ('g, 'f) world \<Rightarrow> ('g, 'f) world" where
  "log_event e w = w\<lparr>trace := trace w @ [e]\<rparr>"

text \<open>
  \<open>to_netcdf(p)\<close>: the write is attempted (and traced); \<open>wr p\<close> says whether the
  file system accepts it. A refused write raises and leaves the directory as it was.
\<close>

definition to_netcdf ::
  "(string \<Rightarrow> bool) \<Rightarrow> dataset \<Rightarrow> string \<Rightarrow> ('g, 'f) world \<Rightarrow> error + ('g, 'f) world" where
  "to_netcdf wr ds p w =
     (let w1 = log_event (WriteFile p) w
      in if wr p then Inr (w1\<lparr>files := AList.update p ds (files w1)\<rparr>)
         else Inl PersistenceError)"

definition unlink :: "string \<Rightarrow> ('g, 'f) world \<Rightarrow> ('g, 'f) world" where
  "unlink p w = (log_event (DeleteFile p) w)\<lparr>files := AList.delete p (files w)\<rparr>"

subsection \<open>File names\<close>

definition digit_char :: "nat \<Rightarrow> char" where
  "digit_char d = ''0123456789'' ! d"

fun decimal :: "nat \<Rightarrow> string" where
  "decimal n = (if n < 10 then [digit_char n] else decimal (n div 10) @ [digit_char (n mod 10)])"

declare decimal.simps [simp del]

definition zfill :: "nat \<Rightarrow> string \<Rightarrow> string" where
  "zfill w s = replicate (w - length s) CHR ''0'' @ s"

text \<open>Python's format specification \<open>04d\<close>: the sign counts in the width of 4.\<close>

definition format_04d :: "int \<Rightarrow> string" where
  "format_04d n =
     (if n < 0 then CHR ''-'' # zfill 3 (decimal (nat (- n))) else zfill 4 (decimal (nat n)))"

definition checkpoint_name :: "string \<Rightarrow> string \<Rightarrow> int \<Rightarrow> string" where
  "checkpoint_name station_code product_type batch_num =
     ''checkpoint_'' @ station_code @ ''_'' @ product_type @ ''_b'' @ format_04d batch_num @ ''.nc''"

text \<open>
  \<open>_get_checkpoint_path\<close> (the leading underscore of a Python name is dropped
  throughout): the argument called \<open>batch_index\<close> is divided by the batch size.
\<close>

definition get_checkpoint_path ::
  "pace_extractor \<Rightarrow> string \<Rightarrow> string \<Rightarrow> int \<Rightarrow> error + string" where
  "get_checkpoint_path ex station_code product_type batch_index =
     (if batch_size ex = 0 then Inl ZeroDivisionError
      else let batch_num = batch_index div batch_size ex
           in Inr (checkpoint_name station_code product_type batch_num))"

definition final_name :: "string \<Rightarrow> string \<Rightarrow> string" where
  "final_name station_code product_type = station_code @ ''_'' @ product_type @ ''_final.nc''"

text \<open>
  \<open>sorted(list(self.output_dir.glob(f"checkpoint_{station_code}_{product_type}_b*.nc")))\<close>:
  the names of the directory that start with the text before the star and end with the
  text after it, in ascending order. This is what the pattern means when the station code
  and the product type are plain text: \<open>Path.glob\<close> reads \<open>*\<close>, \<open>?\<close> and \<open>[\<close> in them as
  wildcards and \<open>/\<close> as a separator of path components. \<open>glob_literal\<close> says that a
  text has none of these characters; the model of the listing is the code's listing for
  such station codes and product types only, and the statements that confirm a behaviour
  of the listing for every station code and product type carry this as a hypothesis.
\<close>

definition glob_literal :: "string \<Rightarrow> bool" where
  "glob_literal s = list_all (\<lambda>c. c \<notin> set ''*?[/'') s"

definition glob_match :: "string \<Rightarrow> string \<Rightarrow> string \<Rightarrow> bool" where
  "glob_match pre suf name =
     (length pre + length suf \<le> length name \<and> take (length pre) name = pre
      \<and> drop (length name - length suf) name = suf)"

definition checkpoint_pattern_match :: "string \<Rightarrow> string \<Rightarrow> string \<Rightarrow> bool" where
  "checkpoint_pattern_match station_code product_type name =
     glob_match (''checkpoint_'' @ station_code @ ''_'' @ product_type @ ''_b'') ''.nc'' name"

definition glob_checkpoints :: "('g, 'f) world \<Rightarrow> string \<Rightarrow> string \<Rightarrow> string list" where
  "glob_checkpoints w station_code product_type =
     sort (filter (checkpoint_pattern_match station_code product_type) (map fst (files w)))"

section \<open>The pixel extractor\<close>

text \<open>
  An opened granule: the three groups that \<open>xr.open_dataset(file_obj, group=...)\<close>
  reads, each absent (\<open>None\<close>) when the file has no such group. Two-dimensional arrays
  are lists of scan lines (\<open>number_of_lines\<close>) of pixels (\<open>pixels_per_line\<close>); a
  reflectance variable has a spectral vector at every pixel. \<open>time_coverage_start\<close> is the
  timestamp that \<open>pd.to_datetime\<close> reads from the attribute of that name, \<open>None\<close> when
  the attribute is absent or is no timestamp. \<open>coord_round\<close> is the rounding to the
  nearest number of the floating point format (\<open>float32\<close> or \<open>float64\<close>) in which the
  file stores latitude and longitude; a number of that format is the real number it
  stands for.
\<close>

record navigation_data =
  latitude :: "val list list"
  longitude :: "val list list"
  coord_round :: "real \<Rightarrow> real"
  time_coverage_start :: "int option"

record geophysical_data =
  variables :: "(string \<times> val list list list) list"
  geo_l2_flags :: "int list list"

record sensor_band_parameters =
  band_wavelength :: "val list"

record granule_file =
  group_navigation_data :: "navigation_data option"
  group_geophysical_data :: "geophysical_data option"
  group_sensor_band_parameters :: "sensor_band_parameters option"

text \<open>
  \<open>np.sqrt((ds_nav.latitude - lat)**2 + (ds_nav.longitude - lon)**2)\<close> at one pixel, as
  floating point arithmetic computes it: the target is converted to the format of the
  array, and each operation (difference, square, sum, square root) gives its exact result
  rounded by \<open>rnd\<close>. A missing coordinate gives a missing distance. Overflow does not
  occur on coordinates and is not modelled.
\<close>

definition distance :: "(real \<Rightarrow> real) \<Rightarrow> real \<Rightarrow> real \<Rightarrow> val \<Rightarrow> val \<Rightarrow> val" where
  "distance rnd lat lon a b =
     (case (a, b) of
        (Some x, Some y) \<Rightarrow>
          Some (rnd (sqrt (rnd (rnd ((rnd (x - rnd lat))\<^sup>2) + rnd ((rnd (y - rnd lon))\<^sup>2)))))
      | _ \<Rightarrow> None)"

text \<open>
  The rounding of the 64-bit floating point format: the nearest number with a significand
  of 53 bits, a tie going to the even significand. This is the format's rounding for
  numbers of the normal range, where the coordinates and their distances are.
\<close>

definition round_half_even :: "real \<Rightarrow> int" where
  "round_half_even x =
     (let n = \<lfloor>x\<rfloor>; r = x - of_int n
      in if r < 1 / 2 then n else if 1 / 2 < r then n + 1 else if even n then n else n + 1)"

definition binary64 :: "real \<Rightarrow> real" where
  "binary64 x =
     (if x = 0 then 0
      else let e = \<lfloor>log 2 \<bar>x\<bar>\<rfloor> - 52
           in of_int (round_half_even (x / 2 powr of_int e)) * 2 powr of_int e)"

text \<open>
  \<open>argmin\<close> over the flattened array skips missing values and returns the first
  position of the least value; it raises when there is no value at all.
\<close>

fun argmin_from :: "val list \<Rightarrow> nat \<Rightarrow> (nat \<times> real) option \<Rightarrow> nat option" where
  "argmin_from [] i best = map_option fst best"
| "argmin_from (None # xs) i best = argmin_from xs (Suc i) best"
| "argmin_from (Some d # xs) i best =
     argmin_from xs (Suc i)
       (case best of
          None \<Rightarrow> Some (i, d)
        | Some (j, m) \<Rightarrow> if d < m then Some (i, d) else Some (j, m))"

definition argmin :: "val list \<Rightarrow> nat option" where
  "argmin xs = argmin_from xs 0 None"

definition shape2 :: "'a list list \<Rightarrow> nat \<times> nat" where
  "shape2 a = (length a, if a = [] then 0 else length (hd a))"

definition unravel_index :: "nat \<Rightarrow> nat \<times> nat \<Rightarrow> nat \<times> nat" where
  "unravel_index idx shp = (idx div snd shp, idx mod snd shp)"

text \<open>\<open>isel(number_of_lines=iy, pixels_per_line=ix)\<close>: an index out of range raises.\<close>

definition isel :: "'a list list \<Rightarrow> nat \<Rightarrow> nat \<Rightarrow> error + 'a" where
  "isel a iy ix =
     (if iy < length a \<and> ix < length (a ! iy) then Inr (a ! iy ! ix) else Inl ExtractionError)"

definition extract_granule_pixel ::
  "granule_file \<Rightarrow> real \<Rightarrow> real \<Rightarrow> string \<Rightarrow> error + pixel" where
  "extract_granule_pixel file_obj lat lon var_name =
     (case (group_navigation_data file_obj, group_geophysical_data file_obj,
            group_sensor_band_parameters file_obj) of
        (Some ds_nav, Some ds_geo, Some ds_band) \<Rightarrow>
          if map length (latitude ds_nav) \<noteq> map length (longitude ds_nav)
          then Inl ExtractionError
          else
            let dist = map2 (map2 (distance (coord_round ds_nav) lat lon))
                         (latitude ds_nav) (longitude ds_nav)
            in (case argmin (concat dist) of
                  None \<Rightarrow> Inl ExtractionError
                | Some idx \<Rightarrow>
                    let (iy, ix) = unravel_index idx (shape2 dist)
                    in (case map_of (variables ds_geo) var_name of
                          None \<Rightarrow> Inl ExtractionError
                        | Some v \<Rightarrow>
                            (case (isel v iy ix, time_coverage_start ds_nav,
                                   isel (geo_l2_flags ds_geo) iy ix,
                                   isel (latitude ds_nav) iy ix, isel (longitude ds_nav) iy ix) of
                               (Inr sp, Some t, Inr fl, Inr la, Inr lo) \<Rightarrow>
                                 if length sp \<noteq> length (band_wavelength ds_band)
                                 then Inl ExtractionError
                                 else Inr \<lparr>data_var = var_name, spectrum = sp,
                                           wavelength = band_wavelength ds_band,
                                           time = t,
                                           l2_flags = fl, pixel_lat = la, pixel_lon = lo\<rparr>
                             | _ \<Rightarrow> Inl ExtractionError)))
      | _ \<Rightarrow> Inl ExtractionError)"

section \<open>Batches, resumption and finalization\<close>

text \<open>
  The body of the loop of \<open>extract_and_save\<close> for the file \<open>f\<close> at position \<open>i\<close> of
  \<open>enumerate(files)\<close>. Everything between \<open>try\<close> and \<open>except Exception\<close> that raises
  (the extraction, the remainder by a batch size of zero, the write) is caught, and the
  loop goes on with the batch as it is at that moment. \<open>ext\<close> is the extraction of one
  file, \<open>self._extract_granule_pixel(f, lat, lon, var_name)\<close>.
\<close>

definition loop_body ::
  "pace_extractor \<Rightarrow> (string \<Rightarrow> bool) \<Rightarrow> ('f \<Rightarrow> error + pixel) \<Rightarrow> string \<Rightarrow> string \<Rightarrow>
   int \<Rightarrow> int \<Rightarrow> nat \<Rightarrow> 'f \<Rightarrow> pixel list \<times> ('g, 'f) world \<Rightarrow> pixel list \<times> ('g, 'f) world" where
  "loop_body ex wr ext station_code product_type processed_count total_granules i f st =
     (let current_batch = fst st;
          w = log_event (ExtractPixel f) (snd st)
      in case ext f of
           Inl e \<Rightarrow> (current_batch, w)
         | Inr ds_pixel \<Rightarrow>
             let current_batch = current_batch @ [ds_pixel];
                 global_idx = processed_count + int i + 1
             in if batch_size ex = 0 then (current_batch, w)
                else if global_idx mod batch_size ex = 0 \<or> global_idx = total_granules
                then (case get_checkpoint_path ex station_code product_type global_idx of
                        Inl e \<Rightarrow> (current_batch, w)
                      | Inr batch_path \<Rightarrow>
                          (case to_netcdf wr \<lparr>records = current_batch, attrs = []\<rparr> batch_path w of
                             Inl e \<Rightarrow> (current_batch, w)
                           | Inr w' \<Rightarrow> ([], w')))
                else (current_batch, w))"

fun extract_loop ::
  "pace_extractor \<Rightarrow> (string \<Rightarrow> bool) \<Rightarrow> ('f \<Rightarrow> error + pixel) \<Rightarrow> string \<Rightarrow> string \<Rightarrow>
   int \<Rightarrow> int \<Rightarrow> nat \<Rightarrow> 'f list \<Rightarrow> pixel list \<times> ('g, 'f) world \<Rightarrow> pixel list \<times> ('g, 'f) world" where
  "extract_loop ex wr ext station_code product_type processed_count total_granules i [] st = st"
| "extract_loop ex wr ext station_code product_type processed_count total_granules i (f # fs) st =
     extract_loop ex wr ext station_code product_type processed_count total_granules (Suc i) fs
       (loop_body ex wr ext station_code product_type processed_count total_granules i f st)"

text \<open>
  For the statements about batches: the records of the files of \<open>fs\<close> whose extraction
  succeeds, in the order of \<open>fs\<close>.
\<close>

definition extracted :: "('f \<Rightarrow> error + pixel) \<Rightarrow> 'f list \<Rightarrow> pixel list" where
  "extracted ext fs = concat (map (\<lambda>f. case ext f of Inl e \<Rightarrow> [] | Inr r \<Rightarrow> [r]) fs)"

text \<open>
  \<open>xr.open_mfdataset(checkpoints, combine='nested', concat_dim="time")\<close>: the records of
  the listed files one after the other, with the attributes of the first file.
\<close>

definition open_mfdataset :: "('g, 'f) world \<Rightarrow> string list \<Rightarrow> dataset" where
  "open_mfdataset w paths =
     (let dss = map (\<lambda>p. case map_of (files w) p of
                           Some ds \<Rightarrow> ds | None \<Rightarrow> \<lparr>records = [], attrs = []\<rparr>) paths
      in \<lparr>records = concat (map records dss),
          attrs = (case dss of [] \<Rightarrow> [] | ds # _ \<Rightarrow> attrs ds)\<rparr>)"

definition finalize_station ::
  "pace_extractor \<Rightarrow> (string \<Rightarrow> bool) \<Rightarrow> string \<Rightarrow> string \<Rightarrow> string \<Rightarrow> ('g, 'f) world \<Rightarrow>
   (error + string option) \<times> ('g, 'f) world" where
  "finalize_station ex wr station_code product_type final_path w =
     (let checkpoints = glob_checkpoints w station_code product_type;
          w = log_event ListCheckpoints w
      in if checkpoints = [] then (Inr None, w)
         else
           let ds = open_mfdataset w checkpoints;
               final_ds = \<lparr>records = sort_key time (records ds),
                           attrs = AList.update ''station_code'' station_code (attrs ds)\<rparr>
           in case to_netcdf wr final_ds final_path w of
                Inl e \<Rightarrow> (Inl e, w)
              | Inr w' \<Rightarrow> (Inr (Some final_path), fold unlink checkpoints w'))"

text \<open>Python's \<open>granules[processed_count:]\<close>; a negative start counts from the end.\<close>

definition slice_from :: "'a list \<Rightarrow> int \<Rightarrow> 'a list" where
  "slice_from xs k = (if k < 0 then drop (nat (int (length xs) + k)) xs else drop (nat k) xs)"

text \<open>
  The second half of \<open>extract_and_save\<close>, from the slice of the remaining granules to
  the end of the loop: it gives the directory as it is when \<open>_finalize_station\<close> is
  called. \<open>earthaccess_open\<close> is the catalog collaborator's \<open>open\<close>, which returns the
  streams of the granules or raises.
\<close>

definition extract_batches ::
  "pace_extractor \<Rightarrow> (string \<Rightarrow> bool) \<Rightarrow> ('g list \<Rightarrow> error + granule_file list) \<Rightarrow>
   string \<Rightarrow> 'g list \<Rightarrow> real \<Rightarrow> real \<Rightarrow> string \<Rightarrow> int \<Rightarrow> ('g, granule_file) world \<Rightarrow>
   error + ('g, granule_file) world" where
  "extract_batches ex wr earthaccess_open station_code granules lat lon product_type
       processed_count w =
     (let total_granules = int (length granules);
          remaining_granules = slice_from granules processed_count;
          var_name = (if product_type = ''Rrs'' then ''Rrs'' else ''Rrc'')
      in case earthaccess_open remaining_granules of
           Inl e \<Rightarrow> Inl e
         | Inr fs \<Rightarrow>
             let w = log_event (OpenGranules remaining_granules) w;
                 st = extract_loop ex wr (\<lambda>f. extract_granule_pixel f lat lon var_name)
                        station_code product_type processed_count total_granules 0 fs ([], w)
             in Inr (snd st))"

definition extract_and_save ::
  "pace_extractor \<Rightarrow> (string \<Rightarrow> bool) \<Rightarrow> ('g list \<Rightarrow> error + granule_file list) \<Rightarrow>
   string \<Rightarrow> 'g list \<Rightarrow> real \<Rightarrow> real \<Rightarrow> string \<Rightarrow> ('g, granule_file) world \<Rightarrow>
   (error + string option) \<times> ('g, granule_file) world" where
  "extract_and_save ex wr earthaccess_open station_code granules lat lon product_type w =
     (let final_path = final_name station_code product_type
      in if path_exists w final_path then (Inr (Some final_path), w)
         else
           let checkpoints = glob_checkpoints w station_code product_type;
               w = log_event ListCheckpoints w;
               total_granules = int (length granules);
               processed_count = int (length checkpoints) * batch_size ex
           in if processed_count \<ge> total_granules \<and> total_granules > 0
              then finalize_station ex wr station_code product_type final_path w
              else
                case extract_batches ex wr earthaccess_open station_code granules lat lon
                       product_type processed_count w of
                  Inl e \<Rightarrow> (Inl e, w)
                | Inr w' \<Rightarrow> finalize_station ex wr station_code product_type final_path w')"

section \<open>The granule locator\<close>

text \<open>
  The names bound where the body of \<open>find_granules\<close> runs: its parameters and local
  variables, and the names the module binds (its imports, the class and the function).
  No builtin of Python is called \<open>temporal\<close>.
\<close>

definition find_granules_locals :: "string list" where
  "find_granules_locals =
     [''self'', ''product_type'', ''lat'', ''lon'', ''temporal_range'', ''short_name'', ''results'']"

definition module_globals :: "string list" where
  "module_globals =
     [''Path'', ''earthaccess'', ''xr'', ''np'', ''pd'', ''logger'', ''tqdm'', ''PaceExtractor'',
      ''filter_rrc'']"

definition name_bound :: "string \<Rightarrow> bool" where
  "name_bound n = (n \<in> set find_granules_locals \<or> n \<in> set module_globals)"

text \<open>
  \<open>search_data\<close> is \<open>earthaccess.search_data(short_name, point, temporal, count)\<close>.
  The f-string of the first log line reads the name \<open>temporal\<close> before the search.
\<close>

definition find_granules ::
  "(string \<Rightarrow> real \<times> real \<Rightarrow> string \<times> string \<Rightarrow> int \<Rightarrow> error + 'g list) \<Rightarrow>
   string \<Rightarrow> real \<Rightarrow> real \<Rightarrow> string \<times> string \<Rightarrow> error + 'g list" where
  "find_granules search_data product_type lat lon temporal_range =
     (let short_name = (if product_type = ''Rrs'' then ''PACE_OCI_L2_AOP'' else ''PACE_OCI_L2_RRC'')
      in if \<not> list_all name_bound [''product_type'', ''lat'', ''lon'', ''temporal'']
         then Inl NameError
         else search_data short_name (lon, lat) temporal_range (- 1))"

text \<open>
  For the statements about what a run opens and processes: the events of a trace that
  open granules or extract from a file, in order.
\<close>

fun is_granule_event :: "('g, 'f) event \<Rightarrow> bool" where
  "is_granule_event (OpenGranules gs) = True"
| "is_granule_event (ExtractPixel f) = True"
| "is_granule_event e = False"

definition granule_events :: "('g, 'f) event list \<Rightarrow> ('g, 'f) event list" where
  "granule_events es = filter is_granule_event es"

section \<open>Example granules\<close>

text \<open>
  A granule of a single pixel at latitude 0 and longitude 0, with one band, taken at time
  \<open>t\<close> (its numbers are numbers of every floating point format, so \<open>coord_round\<close> leaves
  them as they are); the record that its extraction gives; and a file that has none of the
  three groups, whose extraction fails.
\<close>

definition one_pixel_granule :: "int \<Rightarrow> granule_file" where
  "one_pixel_granule t =
     \<lparr>group_navigation_data =
        Some \<lparr>latitude = [[Some 0]], longitude = [[Some 0]], coord_round = id,
              time_coverage_start = Some t\<rparr>,
      group_geophysical_data =
        Some \<lparr>variables = [(''Rrs'', [[[Some 1]]])], geo_l2_flags = [[0]]\<rparr>,
      group_sensor_band_parameters = Some \<lparr>band_wavelength = [Some 400]\<rparr>\<rparr>"

definition one_pixel_record :: "int \<Rightarrow> pixel" where
  "one_pixel_record t =
     \<lparr>data_var = ''Rrs'', spectrum = [Some 1], wavelength = [Some 400], time = t,
      l2_flags = 0, pixel_lat = Some 0, pixel_lon = Some 0\<rparr>"

definition empty_granule :: granule_file where
  "empty_granule =
     \<lparr>group_navigation_data = None, group_geophysical_data = None,
      group_sensor_band_parameters = None\<rparr>"

text \<open>A file system that accepts every write.\<close>

definition always_writable :: "string \<Rightarrow> bool" where
  "always_writable p = True"

section \<open>Properties of filter_rrc\<close>

lemma flag_bits_42:
  "(or (push_bit 1 1) (or (push_bit 3 1) (push_bit 5 1)) :: int) = 42"
  by simp

lemma bit_42_iff: "bit (42 :: int) n \<longleftrightarrow> n = 1 \<or> n = 3 \<or> n = 5"
proof -
  have "(42 :: int) = or (push_bit 1 1) (or (push_bit 3 1) (push_bit 5 1))"
    by simp
  then show ?thesis
    by (simp only: bit_or_iff bit_push_bit_iff bit_1_iff) auto
qed

lemma and_42_eq_0_iff:
  "and (f :: int) 42 = 0 \<longleftrightarrow> \<not> bit f 1 \<and> \<not> bit f 3 \<and> \<not> bit f 5"
  by (auto simp add: bit_eq_iff [where ?'a = int] bit_and_iff bit_42_iff)

lemma where_ds_map:
  "where_ds ds (map p (records ds)) =
     ds\<lparr>records := map (\<lambda>r. if p r then r else masked r) (records ds)\<rparr>"
proof -
  have "map (\<lambda>(r, m). if m then r else masked r) (zip xs (map p xs)) =
        map (\<lambda>r. if p r then r else masked r) xs" for xs :: "pixel list"
    by (induction xs) simp_all
  then show ?thesis
    by (simp add: where_ds_def)
qed

text \<open>
  C10: \<open>filter_rrc\<close> keeps a record as it is exactly when bits 1, 3 and 5 of its
  \<open>l2_flags\<close> are all clear, which is the test \<open>l2_flags AND 42 = 0\<close>, and replaces the
  spectrum of every other record by missing values; the three bit positions are the
  constant 42 of the function, not a parameter. Coordinates and attributes stay.
\<close>

theorem filter_rrc_masks_bits_1_3_5:
  "filter_rrc ds =
     ds\<lparr>records :=
          map (\<lambda>r. if \<not> bit (l2_flags r) 1 \<and> \<not> bit (l2_flags r) 3 \<and> \<not> bit (l2_flags r) 5
                   then r else r\<lparr>spectrum := replicate (length (spectrum r)) None\<rparr>)
              (records ds)\<rparr>
   \<and> (\<forall>f :: int. (\<not> bit f 1 \<and> \<not> bit f 3 \<and> \<not> bit f 5) = (and f 42 = 0))"
proof -
  have m: "masked r = r\<lparr>spectrum := replicate (length (spectrum r)) None\<rparr>" for r
    by (simp add: masked_def map_replicate_const)
  show ?thesis
    unfolding filter_rrc_def Let_def flag_bits_42 where_ds_map and_42_eq_0_iff m
    by simp
qed

theorem filter_rrc_masks_bits_1_3_5_witness:
  "filter_rrc \<lparr>records =
       [\<lparr>data_var = ''Rrc'', spectrum = [Some 1, Some 2], wavelength = [Some 400, Some 500],
         time = 10, l2_flags = 4, pixel_lat = Some 1, pixel_lon = Some 2\<rparr>,
        \<lparr>data_var = ''Rrc'', spectrum = [Some 3, Some 4], wavelength = [Some 400, Some 500],
         time = 20, l2_flags = 8, pixel_lat = Some 1, pixel_lon = Some 2\<rparr>],
      attrs = []\<rparr>
   = \<lparr>records =
       [\<lparr>data_var = ''Rrc'', spectrum = [Some 1, Some 2], wavelength = [Some 400, Some 500],
         time = 10, l2_flags = 4, pixel_lat = Some 1, pixel_lon = Some 2\<rparr>,
        \<lparr>data_var = ''Rrc'', spectrum = [None, None], wavelength = [Some 400, Some 500],
         time = 20, l2_flags = 8, pixel_lat = Some 1, pixel_lon = Some 2\<rparr>],
      attrs = []\<rparr>"
  using filter_rrc_masks_bits_1_3_5 [of
      "\<lparr>records =
       [\<lparr>data_var = ''Rrc'', spectrum = [Some 1, Some 2], wavelength = [Some 400, Some 500],
         time = 10, l2_flags = 4, pixel_lat = Some 1, pixel_lon = Some 2\<rparr>,
        \<lparr>data_var = ''Rrc'', spectrum = [Some 3, Some 4], wavelength = [Some 400, Some 500],
         time = 20, l2_flags = 8, pixel_lat = Some 1, pixel_lon = Some 2\<rparr>],
      attrs = []\<rparr>"]
  by simp

section \<open>File names\<close>

text \<open>
  The decimal rendering of the batch number is injective, so checkpoints of different
  batch numbers have different names; every checkpoint name matches the pattern of its
  station and product, and the name of the final artifact does not.
\<close>

lemma digit_char_inj: "d < 10 \<Longrightarrow> e < 10 \<Longrightarrow> digit_char d = digit_char e \<Longrightarrow> d = e"
proof -
  assume a: "d < 10" "e < 10" "digit_char d = digit_char e"
  have "distinct ''0123456789''" by simp
  moreover have "d < length ''0123456789''" "e < length ''0123456789''" using a by simp_all
  ultimately show ?thesis using a(3) unfolding digit_char_def
    by (simp only: nth_eq_iff_index_eq)
qed

lemma decimal_nonempty: "decimal n \<noteq> []"
  by (subst decimal.simps) simp

lemma decimal_inj: "decimal n = decimal m \<Longrightarrow> n = m"
proof (induction n arbitrary: m rule: decimal.induct)
  case (1 n)
  show ?case
  proof (cases "n < 10")
    case True
    show ?thesis
    proof (cases "m < 10")
      case m: True
      from "1.prems" True m have "digit_char n = digit_char m"
        by (simp add: decimal.simps [of n] decimal.simps [of m])
      then show ?thesis using True m by (rule digit_char_inj [rotated 2])
    next
      case m: False
      from "1.prems" True m have "decimal (m div 10) = []"
        by (simp add: decimal.simps [of n] decimal.simps [of m])
      then show ?thesis by (simp add: decimal_nonempty)
    qed
  next
    case False
    show ?thesis
    proof (cases "m < 10")
      case m: True
      from "1.prems" False m have "decimal (n div 10) = []"
        by (simp add: decimal.simps [of n] decimal.simps [of m])
      then show ?thesis by (simp add: decimal_nonempty)
    next
      case m: False
      from "1.prems" False m
      have eq: "decimal (n div 10) = decimal (m div 10)" "digit_char (n mod 10) = digit_char (m mod 10)"
        by (simp_all add: decimal.simps [of n] decimal.simps [of m])
      from "1.IH" [OF False eq(1)] have "n div 10 = m div 10" .
      moreover from eq(2) have "n mod 10 = m mod 10"
        by (rule digit_char_inj [rotated 2]) simp_all
      ultimately show ?thesis by (metis div_mult_mod_eq)
    qed
  qed
qed

lemma hd_decimal: "0 < n \<Longrightarrow> hd (decimal n) \<noteq> CHR ''0''"
proof (induction n rule: decimal.induct)
  case (1 n)
  show ?case
  proof (cases "n < 10")
    case True
    have "digit_char n \<noteq> digit_char 0"
      using digit_char_inj [of n 0] True "1.prems" by auto
    then show ?thesis using True
      by (simp add: decimal.simps [of n] digit_char_def)
  next
    case False
    then have "0 < n div 10" by simp
    from "1.IH" [OF False this] show ?thesis using False
      by (simp add: decimal.simps [of n] decimal_nonempty)
  qed
qed

lemma length_decimal_0: "decimal 0 = ''0''"
  by (simp add: decimal.simps digit_char_def)

lemma zfill_decimal_inj:
  assumes "zfill w (decimal n) = zfill w (decimal m)"
  shows "n = m"
proof -
  have aux: "False" if lt: "length (decimal a) < length (decimal b)"
    and eq: "zfill w (decimal a) = zfill w (decimal b)" for a b
  proof -
    have "length (zfill w (decimal a)) = length (zfill w (decimal b))" using eq by simp
    then have bw: "length (decimal b) \<le> w" using lt by (simp add: zfill_def) 
    let ?j = "w - length (decimal b)"
    have "?j < w - length (decimal a)" using lt bw by arith
    then have "zfill w (decimal a) ! ?j = CHR ''0''"
      by (simp add: zfill_def nth_append)
    moreover have "zfill w (decimal b) ! ?j = hd (decimal b)"
      by (simp add: zfill_def nth_append hd_conv_nth decimal_nonempty)
    ultimately have "hd (decimal b) = CHR ''0''" using eq by simp
    then have "b = 0" using hd_decimal [of b] by auto
    then have "length (decimal b) = 1" by (simp add: length_decimal_0)
    moreover have "0 < length (decimal a)" by (simp add: decimal_nonempty)
    ultimately show False using lt by simp
  qed
  have "length (decimal n) = length (decimal m)"
    using aux [of n m] aux [of m n] assms by (metis linorder_neqE_nat)
  then have "decimal n = decimal m" using assms by (simp add: zfill_def)
  then show ?thesis by (rule decimal_inj)
qed

lemma set_decimal: "set (decimal n) \<subseteq> set ''0123456789''"
proof (induction n rule: decimal.induct)
  case (1 n)
  have d: "digit_char k \<in> set ''0123456789''" if "k < 10" for k
    unfolding digit_char_def by (rule nth_mem) (use that in simp)
  show ?case
  proof (cases "n < 10")
    case True
    then show ?thesis using d [of n] by (simp add: decimal.simps [of n])
  next
    case False
    then show ?thesis using "1.IH" d [of "n mod 10"] by (simp add: decimal.simps [of n])
  qed
qed

lemma format_04d_inj: "format_04d a = format_04d b \<Longrightarrow> a = b"
proof -
  assume eq: "format_04d a = format_04d b"
  have nominus: "hd (zfill 4 (decimal k)) \<noteq> CHR ''-''" for k
  proof -
    have "set (zfill 4 (decimal k)) \<subseteq> set ''0123456789''"
      using set_decimal [of k] by (auto simp add: zfill_def)
    moreover have "zfill 4 (decimal k) \<noteq> []" by (simp add: zfill_def decimal_nonempty)
    ultimately have "hd (zfill 4 (decimal k)) \<in> set ''0123456789''"
      using hd_in_set by blast
    then show ?thesis by auto
  qed
  consider "a < 0" "b < 0" | "a < 0" "0 \<le> b" | "0 \<le> a" "b < 0" | "0 \<le> a" "0 \<le> b"
    by linarith
  then show ?thesis
  proof cases
    case 1
    then have "zfill 3 (decimal (nat (- a))) = zfill 3 (decimal (nat (- b)))"
      using eq by (simp add: format_04d_def)
    then have "nat (- a) = nat (- b)" by (rule zfill_decimal_inj)
    then show ?thesis using 1 by simp
  next
    case 2
    then have "CHR ''-'' # zfill 3 (decimal (nat (- a))) = zfill 4 (decimal (nat b))"
      using eq by (simp add: format_04d_def)
    then have "hd (zfill 4 (decimal (nat b))) = CHR ''-''" by (metis list.sel(1))
    then show ?thesis using nominus by blast
  next
    case 3
    then have "CHR ''-'' # zfill 3 (decimal (nat (- b))) = zfill 4 (decimal (nat a))"
      using eq by (simp add: format_04d_def)
    then have "hd (zfill 4 (decimal (nat a))) = CHR ''-''" by (metis list.sel(1))
    then show ?thesis using nominus by blast
  next
    case 4
    then have "zfill 4 (decimal (nat a)) = zfill 4 (decimal (nat b))"
      using eq by (simp add: format_04d_def)
    then have "nat a = nat b" by (rule zfill_decimal_inj)
    then show ?thesis using 4 by simp
  qed
qed

lemma checkpoint_name_inj:
  "checkpoint_name s p a = checkpoint_name s p b \<Longrightarrow> a = b"
  by (simp add: checkpoint_name_def format_04d_inj)

lemma glob_match_append: "glob_match pre suf (pre @ mid @ suf)"
  by (simp add: glob_match_def)

lemma checkpoint_name_match:
  "checkpoint_pattern_match s p (checkpoint_name s p k)"
proof -
  have "checkpoint_name s p k =
        (''checkpoint_'' @ s @ ''_'' @ p @ ''_b'') @ format_04d k @ ''.nc''"
    by (simp add: checkpoint_name_def)
  then show ?thesis
    unfolding checkpoint_pattern_match_def by (simp only: glob_match_append)
qed

lemma final_name_no_match:
  "\<not> checkpoint_pattern_match s p (final_name s p)"
  by (simp add: checkpoint_pattern_match_def glob_match_def final_name_def)

section \<open>The granule locator raises\<close>

text \<open>
  C3: the spec has \<open>find_granules\<close> pass the catalog identifier of the product type, the
  point \<open>(lon, lat)\<close>, the temporal range and an unbounded count to the catalog
  collaborator and return its result. The code does not get there: the log line before
  the search formats the name \<open>temporal\<close>, which is bound nowhere (the parameter is
  \<open>temporal_range\<close>), so every call raises \<open>NameError\<close> and the collaborator is never
  asked, whatever it would answer.
\<close>

theorem find_granules_raises_NameError:
  "find_granules search_data product_type lat lon temporal_range = Inl NameError"
  by (simp add: find_granules_def name_bound_def find_granules_locals_def module_globals_def)

section \<open>The short-circuit on an existing final artifact\<close>

text \<open>
  C6: when the final artifact of the station and product exists, \<open>extract_and_save\<close>
  returns its path at once and leaves the world as it is: the directory is unchanged and
  the trace has no new event (no listing of checkpoints, no opening of granules, no
  extraction, no write). A second call with the same inputs returns the same path.
\<close>

theorem extract_and_save_final_exists:
  assumes "path_exists w (final_name station_code product_type)"
  shows "extract_and_save ex wr earthaccess_open station_code granules lat lon product_type w
           = (Inr (Some (final_name station_code product_type)), w)
       \<and> extract_and_save ex wr earthaccess_open station_code granules lat lon product_type
           (snd (extract_and_save ex wr earthaccess_open station_code granules lat lon
                   product_type w))
           = (Inr (Some (final_name station_code product_type)), w)"
  using assms by (simp add: extract_and_save_def)

theorem extract_and_save_final_exists_witness:
  "path_exists
     \<lparr>files = [(''TEST_Rrs_final.nc'', \<lparr>records = [], attrs = []\<rparr>)],
      trace = ([] :: (granule_file, granule_file) event list)\<rparr>
     (final_name ''TEST'' ''Rrs'')
   \<and> extract_and_save \<lparr>output_dir = ''tmp'', batch_size = 2\<rparr> (\<lambda>p. True) Inr ''TEST'' [] 0 0 ''Rrs''
       \<lparr>files = [(''TEST_Rrs_final.nc'', \<lparr>records = [], attrs = []\<rparr>)],
        trace = ([] :: (granule_file, granule_file) event list)\<rparr>
     = (Inr (Some ''TEST_Rrs_final.nc''),
        \<lparr>files = [(''TEST_Rrs_final.nc'', \<lparr>records = [], attrs = []\<rparr>)], trace = []\<rparr>)"
proof -
  have h: "path_exists
     \<lparr>files = [(''TEST_Rrs_final.nc'', \<lparr>records = [], attrs = []\<rparr>)],
      trace = ([] :: (granule_file, granule_file) event list)\<rparr>
     (final_name ''TEST'' ''Rrs'')"
    by (simp add: path_exists_def final_name_def)
  from extract_and_save_final_exists [OF h, of "\<lparr>output_dir = ''tmp'', batch_size = 2\<rparr>"
      "\<lambda>p. True" Inr "[]" 0 0]
  show ?thesis using h by (simp add: final_name_def)
qed

section \<open>The loop of extract_and_save\<close>

lemma extracted_Nil [simp]: "extracted ext [] = []"
  by (simp add: extracted_def)

lemma extracted_append [simp]: "extracted ext (xs @ ys) = extracted ext xs @ extracted ext ys"
  by (simp add: extracted_def)

lemma extracted_ok [simp]: "ext f = Inr r \<Longrightarrow> extracted ext (f # fs) = r # extracted ext fs"
  by (simp add: extracted_def)

lemma extracted_fail [simp]: "ext f = Inl e \<Longrightarrow> extracted ext (f # fs) = extracted ext fs"
  by (simp add: extracted_def)

lemma length_extracted_ok:
  "\<forall>f\<in>set fs. \<exists>r. ext f = Inr r \<Longrightarrow> length (extracted ext fs) = length fs"
  by (induction fs) auto

lemma extract_loop_append:
  "extract_loop ex wr ext sc pt pc T i (fs1 @ fs2) st =
   extract_loop ex wr ext sc pt pc T (i + length fs1) fs2 (extract_loop ex wr ext sc pt pc T i fs1 st)"
  by (induction fs1 arbitrary: i st) simp_all

lemma loop_body_fail:
  "ext f = Inl e \<Longrightarrow>
   loop_body ex wr ext sc pt pc T i f (cb, w) = (cb, log_event (ExtractPixel f) w)"
  by (simp add: loop_body_def)

lemma loop_body_keep:
  assumes "ext f = Inr r" "batch_size ex \<noteq> 0"
    and "(pc + int i + 1) mod batch_size ex \<noteq> 0" "pc + int i + 1 \<noteq> T"
  shows "loop_body ex wr ext sc pt pc T i f (cb, w) = (cb @ [r], log_event (ExtractPixel f) w)"
  using assms by (simp add: loop_body_def Let_def)

lemma loop_body_flush:
  assumes "ext f = Inr r" "batch_size ex \<noteq> 0"
    and "(pc + int i + 1) mod batch_size ex = 0 \<or> pc + int i + 1 = T"
    and "wr (checkpoint_name sc pt ((pc + int i + 1) div batch_size ex))"
  shows "fst (loop_body ex wr ext sc pt pc T i f (cb, w)) = []"
    and "files (snd (loop_body ex wr ext sc pt pc T i f (cb, w))) =
         AList.update (checkpoint_name sc pt ((pc + int i + 1) div batch_size ex))
           \<lparr>records = cb @ [r], attrs = []\<rparr> (files w)"
    and "trace (snd (loop_body ex wr ext sc pt pc T i f (cb, w))) =
         trace w @ [ExtractPixel f, WriteFile (checkpoint_name sc pt ((pc + int i + 1) div batch_size ex))]"
  using assms
  by (auto simp add: loop_body_def Let_def get_checkpoint_path_def to_netcdf_def log_event_def)

text \<open>A stretch of files none of which reaches a flush.\<close>

lemma extract_loop_keep:
  assumes "batch_size ex \<noteq> 0"
    and "\<forall>j < length fs. (pc + int (i + j) + 1) mod batch_size ex \<noteq> 0 \<and> pc + int (i + j) + 1 \<noteq> T"
  shows "extract_loop ex wr ext sc pt pc T i fs (cb, w) =
         (cb @ extracted ext fs, w\<lparr>trace := trace w @ map ExtractPixel fs\<rparr>)"
  using assms(2)
proof (induction fs arbitrary: i cb w)
  case Nil
  then show ?case by simp
next
  case (Cons f fs)
  have step: "\<forall>j<length fs. (pc + int (Suc i + j) + 1) mod batch_size ex \<noteq> 0 \<and> pc + int (Suc i + j) + 1 \<noteq> T"
  proof (intro allI impI)
    fix j assume "j < length fs"
    then have "Suc j < length (f # fs)" by simp
    from Cons.prems [rule_format, OF this] show "(pc + int (Suc i + j) + 1) mod batch_size ex \<noteq> 0 \<and> pc + int (Suc i + j) + 1 \<noteq> T"
      by simp
  qed
  have here: "(pc + int i + 1) mod batch_size ex \<noteq> 0 \<and> pc + int i + 1 \<noteq> T"
    using Cons.prems [rule_format, of 0] by simp
  show ?case
  proof (cases "ext f")
    case (Inl e)
    then show ?thesis
      by (simp add: loop_body_fail Cons.IH [OF step] log_event_def)
  next
    case (Inr r)
    then show ?thesis using here assms(1)
      by (simp add: loop_body_keep Cons.IH [OF step] log_event_def)
  qed
qed

lemma extract_loop_flush_at_end:
  assumes bs: "batch_size ex \<noteq> 0"
    and keep: "\<forall>j < length fs. (pc + int (i + j) + 1) mod batch_size ex \<noteq> 0 \<and> pc + int (i + j) + 1 \<noteq> T"
    and f: "ext f = Inr r"
    and fl: "(pc + int (i + length fs) + 1) mod batch_size ex = 0 \<or> pc + int (i + length fs) + 1 = T"
    and wr: "wr (checkpoint_name sc pt ((pc + int (i + length fs) + 1) div batch_size ex))"
  shows "fst (extract_loop ex wr ext sc pt pc T i (fs @ [f]) (cb, w)) = []"
    and "files (snd (extract_loop ex wr ext sc pt pc T i (fs @ [f]) (cb, w))) =
         AList.update (checkpoint_name sc pt ((pc + int (i + length fs) + 1) div batch_size ex))
           \<lparr>records = cb @ extracted ext (fs @ [f]), attrs = []\<rparr> (files w)"
proof -
  let ?w1 = "w\<lparr>trace := trace w @ map ExtractPixel fs\<rparr>"
  have 1: "extract_loop ex wr ext sc pt pc T i (fs @ [f]) (cb, w) =
        loop_body ex wr ext sc pt pc T (i + length fs) f (cb @ extracted ext fs, ?w1)"
    by (simp add: extract_loop_append extract_loop_keep [OF bs keep])
  show "fst (extract_loop ex wr ext sc pt pc T i (fs @ [f]) (cb, w)) = []"
    unfolding 1 by (rule loop_body_flush(1)) (rule f bs fl wr)+
  show "files (snd (extract_loop ex wr ext sc pt pc T i (fs @ [f]) (cb, w))) =
         AList.update (checkpoint_name sc pt ((pc + int (i + length fs) + 1) div batch_size ex))
           \<lparr>records = cb @ extracted ext (fs @ [f]), attrs = []\<rparr> (files w)"
  proof -
    have "files (snd (loop_body ex wr ext sc pt pc T (i + length fs) f (cb @ extracted ext fs, ?w1))) =
         AList.update (checkpoint_name sc pt ((pc + int (i + length fs) + 1) div batch_size ex))
           \<lparr>records = (cb @ extracted ext fs) @ [r], attrs = []\<rparr> (files ?w1)"
      by (rule loop_body_flush(2)) (rule f bs fl wr)+
    then show ?thesis unfolding 1 using f by (simp add: extracted_def)
  qed
qed

text \<open>One full batch, started at a multiple of the batch size with an empty accumulator.\<close>

lemma extract_loop_block:
  assumes bs: "batch_size ex = int N" "0 < N"
    and len: "length fs = N"
    and start: "pc + int i = int k * int N"
    and T: "int (Suc k) * int N \<le> T"
    and ok: "\<forall>f\<in>set fs. \<exists>r. ext f = Inr r"
    and wr: "wr (checkpoint_name sc pt (int (Suc k)))"
  shows "fst (extract_loop ex wr ext sc pt pc T i fs ([], w)) = []"
    and "files (snd (extract_loop ex wr ext sc pt pc T i fs ([], w))) =
         AList.update (checkpoint_name sc pt (int (Suc k)))
           \<lparr>records = extracted ext fs, attrs = []\<rparr> (files w)"
proof -
  from len bs(2) have ne: "fs \<noteq> []" by auto
  define fs' where "fs' = butlast fs"
  define f where "f = last fs"
  have fs: "fs = fs' @ [f]" and len': "length fs' = N - 1"
    using ne len by (simp_all add: fs'_def f_def)
  from ok fs obtain r where r: "ext f = Inr r" by auto
  have bs0: "batch_size ex \<noteq> 0" using bs by simp
  have gidx: "pc + int (i + j) + 1 = int (k * N + j + 1)" for j
    using start by simp
  have keep: "\<forall>j < length fs'. (pc + int (i + j) + 1) mod batch_size ex \<noteq> 0 \<and> pc + int (i + j) + 1 \<noteq> T"
  proof (intro allI impI)
    fix j assume j: "j < length fs'"
    then have j1: "j + 1 < N" using len' by simp
    have "int ((k * N + j + 1) mod N) = int (j + 1)" using j1 by (simp add: add.assoc)
    then have "int (k * N + j + 1) mod int N = int (j + 1)" by (simp only: of_nat_mod)
    then have a: "(pc + int (i + j) + 1) mod batch_size ex \<noteq> 0"
      unfolding gidx bs(1) by simp
    have "k * N + j + 1 < Suc k * N" using j1 by simp
    then have "int (k * N + j + 1) < int (Suc k) * int N"
      by (metis of_nat_less_iff of_nat_mult)
    then have b: "pc + int (i + j) + 1 \<noteq> T" unfolding gidx using T by linarith
    from a b show "(pc + int (i + j) + 1) mod batch_size ex \<noteq> 0 \<and> pc + int (i + j) + 1 \<noteq> T" ..
  qed
  have last_idx: "pc + int (i + length fs') + 1 = int (Suc k) * int N"
  proof -
    have "k * N + (N - 1) + 1 = Suc k * N" using bs(2) by simp
    then show ?thesis unfolding gidx len' by (metis of_nat_mult)
  qed
  have fl: "(pc + int (i + length fs') + 1) mod batch_size ex = 0 \<or> pc + int (i + length fs') + 1 = T"
    unfolding last_idx bs(1) by simp
  have dv: "(pc + int (i + length fs') + 1) div batch_size ex = int (Suc k)"
    unfolding last_idx bs(1) using bs(2) by simp
  have wr': "wr (checkpoint_name sc pt ((pc + int (i + length fs') + 1) div batch_size ex))"
    unfolding dv by (rule wr)
  show "fst (extract_loop ex wr ext sc pt pc T i fs ([], w)) = []"
    unfolding fs by (rule extract_loop_flush_at_end(1)) (rule bs0 keep r fl wr')+
  have "files (snd (extract_loop ex wr ext sc pt pc T i (fs' @ [f]) ([], w))) =
         AList.update (checkpoint_name sc pt ((pc + int (i + length fs') + 1) div batch_size ex))
           \<lparr>records = [] @ extracted ext (fs' @ [f]), attrs = []\<rparr> (files w)"
    by (rule extract_loop_flush_at_end(2)) (rule bs0 keep r fl wr')+
  then show "files (snd (extract_loop ex wr ext sc pt pc T i fs ([], w))) =
         AList.update (checkpoint_name sc pt (int (Suc k)))
           \<lparr>records = extracted ext fs, attrs = []\<rparr> (files w)"
    unfolding fs dv by simp
qed

text \<open>The last, partial batch: fewer than a batch of files, the last of them the last of all.\<close>

lemma extract_loop_tail:
  assumes bs: "batch_size ex = int N" "0 < N"
    and len: "0 < length fs" "length fs < N"
    and start: "pc + int i = int q * int N"
    and T: "T = int q * int N + int (length fs)"
    and ok: "\<forall>f\<in>set fs. \<exists>r. ext f = Inr r"
    and wr: "wr (checkpoint_name sc pt (int q))"
  shows "fst (extract_loop ex wr ext sc pt pc T i fs ([], w)) = []"
    and "files (snd (extract_loop ex wr ext sc pt pc T i fs ([], w))) =
         AList.update (checkpoint_name sc pt (int q))
           \<lparr>records = extracted ext fs, attrs = []\<rparr> (files w)"
proof -
  from len have ne: "fs \<noteq> []" by auto
  define fs' where "fs' = butlast fs"
  define f where "f = last fs"
  have fs: "fs = fs' @ [f]" and len': "length fs' = length fs - 1"
    using ne by (simp_all add: fs'_def f_def)
  from ok fs obtain r where r: "ext f = Inr r" by auto
  have bs0: "batch_size ex \<noteq> 0" using bs by simp
  have gidx: "pc + int (i + j) + 1 = int (q * N + j + 1)" for j
    using start by simp
  have keep: "\<forall>j < length fs'. (pc + int (i + j) + 1) mod batch_size ex \<noteq> 0 \<and> pc + int (i + j) + 1 \<noteq> T"
  proof (intro allI impI)
    fix j assume j: "j < length fs'"
    then have j1: "j + 1 < length fs" "j + 1 < N" using len' len by simp_all
    have "int ((q * N + j + 1) mod N) = int (j + 1)" using j1 by (simp add: add.assoc)
    then have "int (q * N + j + 1) mod int N = int (j + 1)" by (simp only: of_nat_mod)
    then have a: "(pc + int (i + j) + 1) mod batch_size ex \<noteq> 0"
      unfolding gidx bs(1) by simp
    have b: "pc + int (i + j) + 1 \<noteq> T" unfolding T using start j1 by simp
    from a b show "(pc + int (i + j) + 1) mod batch_size ex \<noteq> 0 \<and> pc + int (i + j) + 1 \<noteq> T" ..
  qed
  have last_idx: "pc + int (i + length fs') + 1 = T"
  proof -
    have "i + length fs' + 1 = i + length fs" using len len' by simp
    then have "int (i + length fs') + 1 = int i + int (length fs)"
      by (metis of_nat_1 of_nat_add)
    then show ?thesis unfolding T using start by simp
  qed
  have fl: "(pc + int (i + length fs') + 1) mod batch_size ex = 0 \<or> pc + int (i + length fs') + 1 = T"
    using last_idx by simp
  have "int ((q * N + length fs) div N) = int q" using len bs(2) by simp
  then have "int (q * N + length fs) div int N = int q"
    by (simp only: of_nat_div)
  then have dv: "(pc + int (i + length fs') + 1) div batch_size ex = int q"
    unfolding last_idx T bs(1) by simp
  have wr': "wr (checkpoint_name sc pt ((pc + int (i + length fs') + 1) div batch_size ex))"
    unfolding dv by (rule wr)
  show "fst (extract_loop ex wr ext sc pt pc T i fs ([], w)) = []"
    unfolding fs by (rule extract_loop_flush_at_end(1)) (rule bs0 keep r fl wr')+
  have "files (snd (extract_loop ex wr ext sc pt pc T i (fs' @ [f]) ([], w))) =
         AList.update (checkpoint_name sc pt ((pc + int (i + length fs') + 1) div batch_size ex))
           \<lparr>records = [] @ extracted ext (fs' @ [f]), attrs = []\<rparr> (files w)"
    by (rule extract_loop_flush_at_end(2)) (rule bs0 keep r fl wr')+
  then show "files (snd (extract_loop ex wr ext sc pt pc T i fs ([], w))) =
         AList.update (checkpoint_name sc pt (int q))
           \<lparr>records = extracted ext fs, attrs = []\<rparr> (files w)"
    unfolding fs dv by simp
qed

lemma extract_loop_blocks:
  assumes bs: "batch_size ex = int N" "0 < N"
    and start: "pc + int i = int k0 * int N"
    and wr: "\<forall>p. wr p"
  shows "length fs = m * N \<Longrightarrow> int (k0 + m) * int N \<le> T \<Longrightarrow>
         \<forall>f\<in>set fs. \<exists>r. ext f = Inr r \<Longrightarrow>
         fst (extract_loop ex wr ext sc pt pc T i fs ([], w)) = [] \<and>
         files (snd (extract_loop ex wr ext sc pt pc T i fs ([], w))) =
           fold (\<lambda>j. AList.update (checkpoint_name sc pt (int (k0 + j + 1)))
                       \<lparr>records = extracted ext (take N (drop (j * N) fs)), attrs = []\<rparr>)
                [0..<m] (files w)"
proof (induction m arbitrary: fs)
  case 0
  then show ?case by simp
next
  case (Suc m)
  define A where "A = take (m * N) fs"
  define B where "B = drop (m * N) fs"
  have fs: "fs = A @ B" by (simp add: A_def B_def)
  have lenA: "length A = m * N" and lenB: "length B = N"
    using Suc.prems(1) by (simp_all add: A_def B_def)
  have TA: "int (k0 + m) * int N \<le> T"
  proof -
    have "(k0 + m) * N \<le> (k0 + Suc m) * N" by simp
    then have "int (k0 + m) * int N \<le> int (k0 + Suc m) * int N"
      by (metis of_nat_le_iff of_nat_mult)
    then show ?thesis using Suc.prems(2) by linarith
  qed
  have okA: "\<forall>f\<in>set A. \<exists>r. ext f = Inr r" and okB: "\<forall>f\<in>set B. \<exists>r. ext f = Inr r"
    using Suc.prems(3) fs by auto
  let ?st = "extract_loop ex wr ext sc pt pc T i A ([], w)"
  from Suc.IH [OF lenA TA okA]
  have ih1: "fst ?st = []"
    and ih2: "files (snd ?st) =
       fold (\<lambda>j. AList.update (checkpoint_name sc pt (int (k0 + j + 1)))
                   \<lparr>records = extracted ext (take N (drop (j * N) A)), attrs = []\<rparr>)
            [0..<m] (files w)"
    by simp_all
  have st: "?st = ([], snd ?st)" using ih1 by (metis prod.collapse)
  have startB: "pc + int (i + length A) = int (k0 + m) * int N"
    using start lenA by (simp add: algebra_simps)
  have TB: "int (Suc (k0 + m)) * int N \<le> T" using Suc.prems(2) by simp
  have wrB: "wr (checkpoint_name sc pt (int (Suc (k0 + m))))" using wr by simp
  have split: "extract_loop ex wr ext sc pt pc T i fs ([], w) =
        extract_loop ex wr ext sc pt pc T (i + length A) B ([], snd ?st)"
    unfolding fs extract_loop_append by (subst st) simp
  have b1: "fst (extract_loop ex wr ext sc pt pc T (i + length A) B ([], snd ?st)) = []"
    by (rule extract_loop_block(1)) (rule bs lenB startB TB okB wrB)+
  have b2: "files (snd (extract_loop ex wr ext sc pt pc T (i + length A) B ([], snd ?st))) =
         AList.update (checkpoint_name sc pt (int (Suc (k0 + m))))
           \<lparr>records = extracted ext B, attrs = []\<rparr> (files (snd ?st))"
    by (rule extract_loop_block(2)) (rule bs lenB startB TB okB wrB)+
  have blocks: "take N (drop (j * N) A) = take N (drop (j * N) fs)" if "j < m" for j
  proof -
    have "Suc j \<le> m" using that by simp
    then have "Suc j * N \<le> m * N" by (rule mult_le_mono1)
    then have "N \<le> m * N - j * N" by simp
    then show ?thesis by (simp add: A_def drop_take min_def)
  qed
  have fold_eq: "fold (\<lambda>j. AList.update (checkpoint_name sc pt (int (k0 + j + 1)))
                   \<lparr>records = extracted ext (take N (drop (j * N) A)), attrs = []\<rparr>)
            [0..<m] (files w) =
        fold (\<lambda>j. AList.update (checkpoint_name sc pt (int (k0 + j + 1)))
                   \<lparr>records = extracted ext (take N (drop (j * N) fs)), attrs = []\<rparr>)
            [0..<m] (files w)"
    by (rule fold_cong) (simp_all add: blocks)
  have lastB: "take N (drop (m * N) fs) = B" using lenB by (simp add: B_def)
  show ?case
    unfolding split using b1 b2 ih2 fold_eq lastB by simp
qed

subsection \<open>Folds of updates of an association list\<close>

lemma map_of_fold_update_other:
  "n \<notin> key ` set js \<Longrightarrow>
   map_of (fold (\<lambda>j. AList.update (key j) (v j)) js al) n = map_of al n"
  by (induction js arbitrary: al) (simp_all add: update_conv')

lemma map_of_fold_update_hit:
  "j \<in> set js \<Longrightarrow> inj_on key (set js) \<Longrightarrow>
   map_of (fold (\<lambda>j. AList.update (key j) (v j)) js al) (key j) = Some (v j)"
proof (induction js arbitrary: al)
  case Nil
  then show ?case by simp
next
  case (Cons a js)
  show ?case
  proof (cases "j \<in> set js")
    case True
    with Cons show ?thesis by simp
  next
    case False
    with Cons.prems have ja: "j = a" by simp
    have "key a \<notin> key ` set js"
      using Cons.prems(2) False ja by (auto simp add: inj_on_def)
    then show ?thesis
      unfolding ja by (simp add: map_of_fold_update_other update_conv')
  qed
qed

lemma keys_fold_update:
  "fst ` set (fold (\<lambda>j. AList.update (key j) (v j)) js al) = fst ` set al \<union> key ` set js"
  by (induction js arbitrary: al) (auto simp add: dom_update)

lemma distinct_fold_update:
  "distinct (map fst al) \<Longrightarrow>
   distinct (map fst (fold (\<lambda>j. AList.update (key j) (v j)) js al))"
  by (induction js arbitrary: al) (simp_all add: distinct_update)

subsection \<open>Listing the checkpoints\<close>

lemma set_glob_checkpoints:
  "set (glob_checkpoints w sc pt) = {n \<in> fst ` set (files w). checkpoint_pattern_match sc pt n}"
  by (auto simp add: glob_checkpoints_def)

lemma distinct_glob_checkpoints:
  "distinct (map fst (files w)) \<Longrightarrow> distinct (glob_checkpoints w sc pt)"
  by (simp add: glob_checkpoints_def)

lemma glob_checkpoints_Nil_iff:
  "glob_checkpoints w sc pt = [] \<longleftrightarrow>
   (\<forall>n \<in> fst ` set (files w). \<not> checkpoint_pattern_match sc pt n)"
proof -
  have "glob_checkpoints w sc pt = [] \<longleftrightarrow> set (glob_checkpoints w sc pt) = {}" by simp
  then show ?thesis unfolding set_glob_checkpoints by auto
qed

text \<open>A whole run from the first granule: all full batches, then the partial one.\<close>

lemma extract_loop_run:
  assumes bs: "batch_size ex = int N" "0 < N"
    and ok: "\<forall>f\<in>set fs. \<exists>r. ext f = Inr r"
    and wr: "\<forall>p. wr p"
  shows "files (snd (extract_loop ex wr ext sc pt 0 (int (length fs)) 0 fs ([], w))) =
         (let q = length fs div N;
              base = fold (\<lambda>j. AList.update (checkpoint_name sc pt (int (j + 1)))
                             \<lparr>records = extracted ext (take N (drop (j * N) fs)), attrs = []\<rparr>)
                          [0..<q] (files w)
          in if length fs mod N = 0 then base
             else AList.update (checkpoint_name sc pt (int q))
                    \<lparr>records = extracted ext (drop (q * N) fs), attrs = []\<rparr> base)"
proof -
  define q where "q = length fs div N"
  define A where "A = take (q * N) fs"
  define B where "B = drop (q * N) fs"
  have qN: "q * N \<le> length fs" unfolding q_def by simp
  have fs: "fs = A @ B" by (simp add: A_def B_def)
  have lenA: "length A = q * N" using qN by (simp add: A_def)
  have lenB: "length B = length fs mod N"
    unfolding B_def q_def by (simp add: minus_div_mult_eq_mod)
  have okA: "\<forall>f\<in>set A. \<exists>r. ext f = Inr r" and okB: "\<forall>f\<in>set B. \<exists>r. ext f = Inr r"
    using ok fs by auto
  have start: "(0::int) + int 0 = int 0 * int N" by simp
  have TA: "int (0 + q) * int N \<le> int (length fs)"
    using qN by (metis add_0 of_nat_le_iff of_nat_mult)
  let ?st = "extract_loop ex wr ext sc pt 0 (int (length fs)) 0 A ([], w)"
  from extract_loop_blocks [OF bs start wr lenA TA okA, of sc pt w]
  have a1: "fst ?st = []"
    and a2: "files (snd ?st) =
       fold (\<lambda>j. AList.update (checkpoint_name sc pt (int (0 + j + 1)))
                   \<lparr>records = extracted ext (take N (drop (j * N) A)), attrs = []\<rparr>)
            [0..<q] (files w)"
    by simp_all
  have blocks: "take N (drop (j * N) A) = take N (drop (j * N) fs)" if "j < q" for j
  proof -
    have "Suc j \<le> q" using that by simp
    then have "Suc j * N \<le> q * N" by (rule mult_le_mono1)
    then have "N \<le> q * N - j * N" by simp
    then show ?thesis by (simp add: A_def drop_take min_def)
  qed
  have base: "files (snd ?st) =
       fold (\<lambda>j. AList.update (checkpoint_name sc pt (int (j + 1)))
                   \<lparr>records = extracted ext (take N (drop (j * N) fs)), attrs = []\<rparr>)
            [0..<q] (files w)"
    unfolding a2 by (rule fold_cong) (simp_all add: blocks)
  have st: "?st = ([], snd ?st)" using a1 by (metis prod.collapse)
  have split: "extract_loop ex wr ext sc pt 0 (int (length fs)) 0 fs ([], w) =
        extract_loop ex wr ext sc pt 0 (int (length fs)) (0 + length A) B ([], snd ?st)"
    by (subst fs, subst extract_loop_append, subst st) (simp add: fs [symmetric])
  show ?thesis
  proof (cases "length fs mod N = 0")
    case True
    then have "B = []" using lenB by simp
    then show ?thesis using True base split by (simp add: Let_def q_def [symmetric])
  next
    case False
    then have lB: "0 < length B" "length B < N" using lenB bs(2) by simp_all
    have startB: "0 + int (0 + length A) = int q * int N" using lenA by simp
    have "length fs = q * N + length B" using fs lenA by (metis length_append)
    then have TB: "int (length fs) = int q * int N + int (length B)"
      by (metis of_nat_add of_nat_mult)
    have wq: "wr (checkpoint_name sc pt (int q))" using wr by simp
    have "files (snd (extract_loop ex wr ext sc pt 0 (int (length fs)) (0 + length A) B ([], snd ?st))) =
         AList.update (checkpoint_name sc pt (int q))
           \<lparr>records = extracted ext B, attrs = []\<rparr> (files (snd ?st))"
      by (rule extract_loop_tail(2)) (rule bs lB startB TB okB wq)+
    then show ?thesis using False base split
      by (simp add: Let_def q_def [symmetric] B_def)
  qed
qed

subsection \<open>Deleting the checkpoints\<close>

lemma files_fold_unlink:
  "files (fold unlink ps w) = fold AList.delete ps (files w)"
  by (induction ps arbitrary: w) (simp_all add: unlink_def log_event_def)

lemma trace_fold_unlink:
  "trace (fold unlink ps w) = trace w @ map DeleteFile ps"
  by (induction ps arbitrary: w) (simp_all add: unlink_def log_event_def)

lemma keys_fold_delete:
  "map fst (fold AList.delete ps al) = filter (\<lambda>n. n \<notin> set ps) (map fst al)"
proof (induction ps arbitrary: al)
  case Nil
  then show ?case by simp
next
  case (Cons p ps)
  have "map fst (AList.delete p al) = filter (\<lambda>n. n \<noteq> p) (map fst al)"
    by (induction al) (auto simp add: AList.delete_eq)
  then show ?case using Cons by (auto simp add: conj_commute)
qed

lemma map_of_fold_delete:
  "n \<notin> set ps \<Longrightarrow> map_of (fold AList.delete ps al) n = map_of al n"
  by (induction ps arbitrary: al) (simp_all add: delete_conv')

section \<open>Finalization\<close>

lemma open_mfdataset_files:
  "files w' = files w \<Longrightarrow> open_mfdataset w' ps = open_mfdataset w ps"
  by (simp add: open_mfdataset_def)

lemma glob_checkpoints_files:
  "files w' = files w \<Longrightarrow> glob_checkpoints w' sc pt = glob_checkpoints w sc pt"
  by (simp add: glob_checkpoints_def)

lemma finalize_station_none:
  "glob_checkpoints w sc pt = [] \<Longrightarrow>
   finalize_station ex wr sc pt fp w = (Inr None, log_event ListCheckpoints w)"
  by (simp add: finalize_station_def)

lemma finalize_station_refused:
  "glob_checkpoints w sc pt \<noteq> [] \<Longrightarrow> \<not> wr fp \<Longrightarrow>
   finalize_station ex wr sc pt fp w = (Inl PersistenceError, log_event ListCheckpoints w)"
  by (simp add: finalize_station_def to_netcdf_def Let_def)

lemma finalize_station_written:
  assumes "glob_checkpoints w sc pt \<noteq> []" "wr fp"
  shows "finalize_station ex wr sc pt fp w =
     (Inr (Some fp),
      fold unlink (glob_checkpoints w sc pt)
        (w\<lparr>trace := trace w @ [ListCheckpoints, WriteFile fp],
           files := AList.update fp
             \<lparr>records = sort_key time (records (open_mfdataset w (glob_checkpoints w sc pt))),
              attrs = AList.update ''station_code'' sc
                        (attrs (open_mfdataset w (glob_checkpoints w sc pt)))\<rparr>
             (files w)\<rparr>))"
proof -
  have o: "open_mfdataset (log_event ListCheckpoints w) ps = open_mfdataset w ps" for ps
    by (rule open_mfdataset_files) (simp add: log_event_def)
  show ?thesis using assms
    by (simp add: finalize_station_def to_netcdf_def Let_def o) (simp add: log_event_def)
qed

lemma final_name_not_listed:
  "final_name sc pt \<notin> set (glob_checkpoints w sc pt)"
  by (simp add: set_glob_checkpoints final_name_no_match)

text \<open>The two outcomes of \<open>_finalize_station\<close> when there is a checkpoint.\<close>

lemma finalize_station_outcomes:
  assumes ne: "glob_checkpoints w sc pt \<noteq> []"
    and dist: "distinct (map fst (files w))"
  shows "(\<not> wr (final_name sc pt) \<longrightarrow>
            fst (finalize_station ex wr sc pt (final_name sc pt) w) = Inl PersistenceError
          \<and> files (snd (finalize_station ex wr sc pt (final_name sc pt) w)) = files w)
       \<and> (wr (final_name sc pt) \<longrightarrow>
            (\<exists>w' final_ds.
               finalize_station ex wr sc pt (final_name sc pt) w
                 = (Inr (Some (final_name sc pt)), w')
             \<and> glob_checkpoints w' sc pt = []
             \<and> map_of (files w') (final_name sc pt) = Some final_ds
             \<and> length (filter (\<lambda>n. n = final_name sc pt) (map fst (files w'))) = 1
             \<and> sorted (map time (records final_ds))
             \<and> mset (records final_ds)
                 = mset (records (open_mfdataset w (glob_checkpoints w sc pt)))
             \<and> trace w' = trace w @ [ListCheckpoints, WriteFile (final_name sc pt)]
                            @ map DeleteFile (glob_checkpoints w sc pt)))"
proof (intro conjI impI)
  assume nw: "\<not> wr (final_name sc pt)"
  show "fst (finalize_station ex wr sc pt (final_name sc pt) w) = Inl PersistenceError"
    by (simp add: finalize_station_refused [where wr = wr and fp = "final_name sc pt", OF ne nw])
  show "files (snd (finalize_station ex wr sc pt (final_name sc pt) w)) = files w"
    by (simp add: finalize_station_refused [where wr = wr and fp = "final_name sc pt", OF ne nw] log_event_def)
next
  assume wr: "wr (final_name sc pt)"
  let ?fp = "final_name sc pt"
  let ?cps = "glob_checkpoints w sc pt"
  define final_ds where "final_ds =
     \<lparr>records = sort_key time (records (open_mfdataset w ?cps)),
      attrs = AList.update ''station_code'' sc (attrs (open_mfdataset w ?cps))\<rparr>"
  define w1 where "w1 = w\<lparr>trace := trace w @ [ListCheckpoints, WriteFile ?fp],
                           files := AList.update ?fp final_ds (files w)\<rparr>"
  define w' where "w' = fold unlink ?cps w1"
  have res: "finalize_station ex wr sc pt ?fp w = (Inr (Some ?fp), w')"
    unfolding w'_def w1_def final_ds_def by (rule finalize_station_written [where wr = wr and fp = "final_name sc pt", OF ne wr])
  have keys': "map fst (files w') = filter (\<lambda>n. n \<notin> set ?cps) (map fst (files w1))"
    unfolding w'_def by (simp add: files_fold_unlink keys_fold_delete)
  have keys1: "fst ` set (files w1) = insert ?fp (fst ` set (files w))"
    unfolding w1_def by (simp add: dom_update)
  have dist1: "distinct (map fst (files w1))"
    unfolding w1_def using dist by (simp add: distinct_update)
  have fp_notin: "?fp \<notin> set ?cps" by (rule final_name_not_listed)
  have g: "glob_checkpoints w' sc pt = []"
  proof -
    have "\<forall>n \<in> fst ` set (files w'). \<not> checkpoint_pattern_match sc pt n"
    proof
      fix n assume "n \<in> fst ` set (files w')"
      then have "n \<in> set (map fst (files w'))" by simp
      then have n: "n \<notin> set ?cps" "n \<in> fst ` set (files w1)"
        unfolding keys' by auto
      show "\<not> checkpoint_pattern_match sc pt n"
      proof (cases "n = ?fp")
        case True
        then show ?thesis by (simp add: final_name_no_match)
      next
        case False
        then have "n \<in> fst ` set (files w)" using n(2) keys1 by simp
        then show ?thesis using n(1) by (simp add: set_glob_checkpoints)
      qed
    qed
    then show ?thesis by (simp only: glob_checkpoints_Nil_iff)
  qed
  have m: "map_of (files w') ?fp = Some final_ds"
    unfolding w'_def files_fold_unlink
    by (simp add: map_of_fold_delete [OF fp_notin] w1_def update_conv')
  have one: "length (filter (\<lambda>n. n = ?fp) (map fst (files w'))) = 1"
  proof -
    have d: "distinct (map fst (files w'))" unfolding keys' using dist1 by simp
    have "?fp \<in> set (map fst (files w'))"
      unfolding keys' using fp_notin keys1 by simp
    then have "{x. x = ?fp} \<inter> set (map fst (files w')) = {?fp}" by auto
    then show ?thesis using distinct_length_filter [OF d, of "\<lambda>n. n = ?fp"] by simp
  qed
  have s: "sorted (map time (records final_ds))"
    unfolding final_ds_def by simp
  have ms: "mset (records final_ds) = mset (records (open_mfdataset w ?cps))"
    unfolding final_ds_def by simp
  have t: "trace w' = trace w @ [ListCheckpoints, WriteFile ?fp] @ map DeleteFile ?cps"
    unfolding w'_def trace_fold_unlink w1_def by simp
  show "\<exists>w' final_ds.
           finalize_station ex wr sc pt ?fp w = (Inr (Some ?fp), w')
         \<and> glob_checkpoints w' sc pt = []
         \<and> map_of (files w') ?fp = Some final_ds
         \<and> length (filter (\<lambda>n. n = ?fp) (map fst (files w'))) = 1
         \<and> sorted (map time (records final_ds))
         \<and> mset (records final_ds) = mset (records (open_mfdataset w ?cps))
         \<and> trace w' = trace w @ [ListCheckpoints, WriteFile ?fp] @ map DeleteFile ?cps"
    using res g m one s ms t by blast
qed

lemma extract_one_pixel_granule:
  "extract_granule_pixel (one_pixel_granule t) 0 0 ''Rrs'' = Inr (one_pixel_record t)"
  by (simp add: one_pixel_granule_def one_pixel_record_def extract_granule_pixel_def
      distance_def argmin_def shape2_def unravel_index_def isel_def)

lemma extract_empty_granule:
  "extract_granule_pixel empty_granule la lo v = Inl ExtractionError"
  by (simp add: empty_granule_def extract_granule_pixel_def)


section \<open>Runs from a clean state\<close>

lemma extract_batches_from_start:
  assumes "earthaccess_open granules = Inr fs"
  shows "extract_batches ex wr earthaccess_open sc granules lat lon pt 0 w =
     Inr (snd (extract_loop ex wr
                 (\<lambda>f. extract_granule_pixel f lat lon (if pt = ''Rrs'' then ''Rrs'' else ''Rrc''))
                 sc pt 0 (int (length granules)) 0 fs
                 ([], log_event (OpenGranules granules) w)))"
  using assms by (simp add: extract_batches_def slice_from_def Let_def)

lemma extract_and_save_clean:
  assumes "\<not> path_exists w (final_name sc pt)" "glob_checkpoints w sc pt = []"
  shows "extract_and_save ex wr earthaccess_open sc granules lat lon pt w =
     (case extract_batches ex wr earthaccess_open sc granules lat lon pt 0
             (log_event ListCheckpoints w) of
        Inl e \<Rightarrow> (Inl e, log_event ListCheckpoints w)
      | Inr w' \<Rightarrow> finalize_station ex wr sc pt (final_name sc pt) w')"
  using assms by (simp add: extract_and_save_def Let_def)

lemma concat_blocks:
  "concat (map (\<lambda>j. take N (drop (j * N) fs)) [0..<M]) = take (M * N) fs"
proof (induction M)
  case 0
  then show ?case by simp
next
  case (Suc M)
  have "concat (map (\<lambda>j. take N (drop (j * N) fs)) [0..<Suc M]) =
        take (M * N) fs @ take N (drop (M * N) fs)"
    using Suc by simp
  also have "\<dots> = take (M * N + N) fs" by (simp only: take_add)
  also have "M * N + N = Suc M * N" by simp
  finally show ?case .
qed

lemma extracted_concat:
  "extracted ext (concat xss) = concat (map (extracted ext) xss)"
  by (induction xss) simp_all

lemma mset_concat_map_cong:
  "mset xs = mset ys \<Longrightarrow> mset (concat (map g xs)) = mset (concat (map g ys))"
proof -
  assume eq: "mset xs = mset ys"
  have "mset (concat (map g zs)) = sum_mset (image_mset (\<lambda>z. mset (g z)) (mset zs))" for zs
    by (induction zs) simp_all
  then show ?thesis using eq by simp
qed

lemma full_batches_files:
  assumes bs: "batch_size ex = int N" "0 < N"
    and len: "length fs = M * N"
    and ok: "\<forall>f\<in>set fs. \<exists>r. ext f = Inr r"
    and wr: "\<forall>p. wr p"
  shows "files (snd (extract_loop ex wr ext sc pt 0 (int (length fs)) 0 fs ([], w))) =
         fold (\<lambda>j. AList.update (checkpoint_name sc pt (int (j + 1)))
                     \<lparr>records = extracted ext (take N (drop (j * N) fs)), attrs = []\<rparr>)
              [0..<M] (files w)"
proof -
  have "length fs div N = M" "length fs mod N = 0" using len bs(2) by simp_all
  then show ?thesis using extract_loop_run [OF bs ok wr, of sc pt w] by (simp add: Let_def)
qed

text \<open>What a directory holds after the writes of the batches \<open>1..M\<close>, when it had no
  checkpoint of the station and product before.\<close>

lemma batches_listing:
  fixes v :: "nat \<Rightarrow> dataset"
  assumes clean: "glob_checkpoints w sc pt = []"
    and dist: "distinct (map fst (files w))"
    and fw: "files w1 = fold (\<lambda>j. AList.update (checkpoint_name sc pt (int (j + 1))) (v j))
                          [0..<M] (files w)"
  shows "set (glob_checkpoints w1 sc pt) = (\<lambda>j. checkpoint_name sc pt (int (j + 1))) ` {0..<M}"
    and "distinct (glob_checkpoints w1 sc pt)"
    and "length (glob_checkpoints w1 sc pt) = M"
    and "mset (glob_checkpoints w1 sc pt) = mset (map (\<lambda>j. checkpoint_name sc pt (int (j + 1))) [0..<M])"
    and "\<forall>j<M. map_of (files w1) (checkpoint_name sc pt (int (j + 1))) = Some (v j)"
    and "distinct (map fst (files w1))"
proof -
  let ?key = "\<lambda>j. checkpoint_name sc pt (int (j + 1))"
  have inj: "inj_on ?key A" for A
    by (rule inj_onI) (auto dest: checkpoint_name_inj)
  have keys: "fst ` set (files w1) = fst ` set (files w) \<union> ?key ` {0..<M}"
    unfolding fw by (simp add: keys_fold_update)
  have nomatch: "\<forall>n \<in> fst ` set (files w). \<not> checkpoint_pattern_match sc pt n"
    using clean by (simp only: glob_checkpoints_Nil_iff)
  show s: "set (glob_checkpoints w1 sc pt) = ?key ` {0..<M}"
    unfolding set_glob_checkpoints keys using nomatch
    by (auto simp add: checkpoint_name_match)
  show d1: "distinct (map fst (files w1))"
    unfolding fw using dist by (rule distinct_fold_update)
  then show d: "distinct (glob_checkpoints w1 sc pt)"
    by (rule distinct_glob_checkpoints)
  have "card (?key ` {0..<M}) = card {0..<M}" by (rule card_image) (rule inj)
  then have "card (?key ` {0..<M}) = M" by simp
  then show "length (glob_checkpoints w1 sc pt) = M"
    using distinct_card [OF d] s by simp
  have dk: "distinct (map ?key [0..<M])"
    unfolding distinct_map by (rule conjI [OF distinct_upt inj])
  have sk: "set (glob_checkpoints w1 sc pt) = set (map ?key [0..<M])"
    unfolding s by (simp only: set_map set_upt)
  show "mset (glob_checkpoints w1 sc pt) = mset (map ?key [0..<M])"
    using set_eq_iff_mset_eq_distinct [OF d dk] sk by blast
  show "\<forall>j<M. map_of (files w1) (?key j) = Some (v j)"
  proof (intro allI impI)
    fix j assume "j < M"
    then have "j \<in> set [0..<M]" by simp
    then show "map_of (files w1) (?key j) = Some (v j)"
      unfolding fw by (rule map_of_fold_update_hit) (rule inj)
  qed
qed

section \<open>The final artifact and the checkpoints\<close>

lemma records_open_mfdataset:
  "records (open_mfdataset w ps) =
     concat (map (\<lambda>p. records (case map_of (files w) p of
                                  Some ds \<Rightarrow> ds | None \<Rightarrow> \<lparr>records = [], attrs = []\<rparr>)) ps)"
  by (simp add: open_mfdataset_def Let_def comp_def)

lemma records_of_listed_checkpoints:
  assumes dist: "distinct (map fst (files w))"
  shows "mset (records (open_mfdataset w (glob_checkpoints w sc pt))) =
         mset (concat (map (\<lambda>(n, ds). records ds)
                 (filter (\<lambda>(n, ds). checkpoint_pattern_match sc pt n) (files w))))"
proof -
  let ?g = "\<lambda>p. records (case map_of (files w) p of
                            Some ds \<Rightarrow> ds | None \<Rightarrow> \<lparr>records = [], attrs = []\<rparr>)"
  let ?fl = "filter (\<lambda>(n, ds). checkpoint_pattern_match sc pt n) (files w)"
  have names: "filter (checkpoint_pattern_match sc pt) (map fst (files w)) = map fst ?fl"
    by (simp add: filter_map comp_def case_prod_unfold)
  have perm: "mset (glob_checkpoints w sc pt) = mset (map fst ?fl)"
    unfolding glob_checkpoints_def names by simp
  have pt: "?g (fst x) = (\<lambda>(n, ds). records ds) x" if "x \<in> set ?fl" for x
  proof -
    obtain n ds where x: "x = (n, ds)" by (cases x)
    have "(n, ds) \<in> set (files w)" using that x by simp
    then have "map_of (files w) n = Some ds" using dist by simp
    then show ?thesis using x by simp
  qed
  have m: "map ?g (map fst ?fl) = map (\<lambda>(n, ds). records ds) ?fl"
    unfolding map_map comp_def by (rule map_cong [OF refl]) (rule pt)
  have "mset (records (open_mfdataset w (glob_checkpoints w sc pt))) =
        mset (concat (map ?g (glob_checkpoints w sc pt)))"
    by (simp only: records_open_mfdataset)
  also have "\<dots> = mset (concat (map ?g (map fst ?fl)))"
    using perm by (rule mset_concat_map_cong)
  also have "\<dots> = mset (concat (map (\<lambda>(n, ds). records ds) ?fl))"
    by (simp only: m)
  finally show ?thesis .
qed

text \<open>
  C8: \<open>_finalize_station\<close> in a directory that has a checkpoint of the station and
  product, whose code and type are plain text. When the write of the final artifact is
  refused, the call raises and every file of the directory is as it was, the checkpoints
  with it. When the write is accepted, the call returns the path of the final artifact;
  no checkpoint remains, exactly one file has the name of the final artifact, its records
  are ascending in time and are, with their multiplicities, the records of the files of
  the directory whose names match the checkpoint pattern; and in the order of the
  effects every deletion comes after the write.
\<close>

theorem finalize_station_deletes_after_write:
  assumes ne: "glob_checkpoints w sc pt \<noteq> []"
    and dist: "distinct (map fst (files w))"
    and lit: "glob_literal sc" "glob_literal pt"
  shows "(\<not> wr (final_name sc pt) \<longrightarrow>
            fst (finalize_station ex wr sc pt (final_name sc pt) w) = Inl PersistenceError
          \<and> files (snd (finalize_station ex wr sc pt (final_name sc pt) w)) = files w)
       \<and> (wr (final_name sc pt) \<longrightarrow>
            (\<exists>w' final_ds.
               finalize_station ex wr sc pt (final_name sc pt) w
                 = (Inr (Some (final_name sc pt)), w')
             \<and> glob_checkpoints w' sc pt = []
             \<and> map_of (files w') (final_name sc pt) = Some final_ds
             \<and> length (filter (\<lambda>n. n = final_name sc pt) (map fst (files w'))) = 1
             \<and> sorted (map time (records final_ds))
             \<and> mset (records final_ds)
                 = mset (concat (map (\<lambda>(n, ds). records ds)
                     (filter (\<lambda>(n, ds). checkpoint_pattern_match sc pt n) (files w))))
             \<and> trace w' = trace w @ [ListCheckpoints, WriteFile (final_name sc pt)]
                            @ map DeleteFile (glob_checkpoints w sc pt)))"
  using finalize_station_outcomes [OF ne dist, of wr ex]
  unfolding records_of_listed_checkpoints [OF dist] .

theorem finalize_station_deletes_after_write_witness:
  "glob_checkpoints
     \<lparr>files = [(''checkpoint_A_Rrs_b0001.nc'',
                 \<lparr>records = [one_pixel_record 20, one_pixel_record 10], attrs = []\<rparr>),
               (''checkpoint_A_Rrs_b0002.nc'',
                 \<lparr>records = [one_pixel_record 15], attrs = []\<rparr>),
               (''checkpoint_B_Rrs_b0001.nc'',
                 \<lparr>records = [one_pixel_record 30], attrs = []\<rparr>)],
      trace = ([] :: (granule_file, granule_file) event list)\<rparr> ''A'' ''Rrs'' \<noteq> []
   \<and> glob_literal ''A'' \<and> glob_literal ''Rrs''
   \<and> fst (finalize_station \<lparr>output_dir = ''out'', batch_size = 2\<rparr> (\<lambda>p. False) ''A'' ''Rrs''
            (final_name ''A'' ''Rrs'')
            \<lparr>files = [(''checkpoint_A_Rrs_b0001.nc'',
                 \<lparr>records = [one_pixel_record 20, one_pixel_record 10], attrs = []\<rparr>),
               (''checkpoint_A_Rrs_b0002.nc'',
                 \<lparr>records = [one_pixel_record 15], attrs = []\<rparr>),
               (''checkpoint_B_Rrs_b0001.nc'',
                 \<lparr>records = [one_pixel_record 30], attrs = []\<rparr>)],
              trace = ([] :: (granule_file, granule_file) event list)\<rparr>) = Inl PersistenceError
   \<and> files (snd (finalize_station \<lparr>output_dir = ''out'', batch_size = 2\<rparr> (\<lambda>p. False) ''A'' ''Rrs''
            (final_name ''A'' ''Rrs'')
            \<lparr>files = [(''checkpoint_A_Rrs_b0001.nc'',
                 \<lparr>records = [one_pixel_record 20, one_pixel_record 10], attrs = []\<rparr>),
               (''checkpoint_A_Rrs_b0002.nc'',
                 \<lparr>records = [one_pixel_record 15], attrs = []\<rparr>),
               (''checkpoint_B_Rrs_b0001.nc'',
                 \<lparr>records = [one_pixel_record 30], attrs = []\<rparr>)],
              trace = ([] :: (granule_file, granule_file) event list)\<rparr>))
       = [(''checkpoint_A_Rrs_b0001.nc'',
                 \<lparr>records = [one_pixel_record 20, one_pixel_record 10], attrs = []\<rparr>),
               (''checkpoint_A_Rrs_b0002.nc'',
                 \<lparr>records = [one_pixel_record 15], attrs = []\<rparr>),
               (''checkpoint_B_Rrs_b0001.nc'',
                 \<lparr>records = [one_pixel_record 30], attrs = []\<rparr>)]
   \<and> (\<exists>w' final_ds.
         finalize_station \<lparr>output_dir = ''out'', batch_size = 2\<rparr> (\<lambda>p. True) ''A'' ''Rrs''
            (final_name ''A'' ''Rrs'')
            \<lparr>files = [(''checkpoint_A_Rrs_b0001.nc'',
                 \<lparr>records = [one_pixel_record 20, one_pixel_record 10], attrs = []\<rparr>),
               (''checkpoint_A_Rrs_b0002.nc'',
                 \<lparr>records = [one_pixel_record 15], attrs = []\<rparr>),
               (''checkpoint_B_Rrs_b0001.nc'',
                 \<lparr>records = [one_pixel_record 30], attrs = []\<rparr>)],
              trace = ([] :: (granule_file, granule_file) event list)\<rparr>
           = (Inr (Some (final_name ''A'' ''Rrs'')), w')
       \<and> glob_checkpoints w' ''A'' ''Rrs'' = []
       \<and> map_of (files w') (final_name ''A'' ''Rrs'') = Some final_ds
       \<and> sorted (map time (records final_ds))
       \<and> mset (records final_ds)
           = mset [one_pixel_record 20, one_pixel_record 10, one_pixel_record 15]
       \<and> trace w' = [ListCheckpoints, WriteFile (final_name ''A'' ''Rrs''),
                      DeleteFile ''checkpoint_A_Rrs_b0001.nc'',
                      DeleteFile ''checkpoint_A_Rrs_b0002.nc''])"
proof -
  let ?w = "\<lparr>files = [(''checkpoint_A_Rrs_b0001.nc'',
                 \<lparr>records = [one_pixel_record 20, one_pixel_record 10], attrs = []\<rparr>),
               (''checkpoint_A_Rrs_b0002.nc'',
                 \<lparr>records = [one_pixel_record 15], attrs = []\<rparr>),
               (''checkpoint_B_Rrs_b0001.nc'',
                 \<lparr>records = [one_pixel_record 30], attrs = []\<rparr>)],
              trace = ([] :: (granule_file, granule_file) event list)\<rparr>"
  have g: "glob_checkpoints ?w ''A'' ''Rrs''
      = [''checkpoint_A_Rrs_b0001.nc'', ''checkpoint_A_Rrs_b0002.nc'']"
    by (simp add: glob_checkpoints_def checkpoint_pattern_match_def glob_match_def)
  have ne: "glob_checkpoints ?w ''A'' ''Rrs'' \<noteq> []" unfolding g by simp
  have dist: "distinct (map fst (files ?w))" by simp
  have lit: "glob_literal ''A''" "glob_literal ''Rrs''" by (simp_all add: glob_literal_def)
  have fl: "filter (\<lambda>(n, ds). checkpoint_pattern_match ''A'' ''Rrs'' n) (files ?w)
      = [(''checkpoint_A_Rrs_b0001.nc'',
                 \<lparr>records = [one_pixel_record 20, one_pixel_record 10], attrs = []\<rparr>),
               (''checkpoint_A_Rrs_b0002.nc'',
                 \<lparr>records = [one_pixel_record 15], attrs = []\<rparr>)]"
    by (simp add: checkpoint_pattern_match_def glob_match_def)
  from finalize_station_deletes_after_write [OF ne dist lit, of "\<lambda>p. False" "\<lparr>output_dir = ''out'', batch_size = 2\<rparr>"]
       finalize_station_deletes_after_write [OF ne dist lit, of "\<lambda>p. True" "\<lparr>output_dir = ''out'', batch_size = 2\<rparr>"]
  show ?thesis unfolding fl g using ne lit by simp blast
qed

section \<open>Full batches\<close>

text \<open>
  C7: with batch size \<open>N \<ge> 1\<close> and \<open>M \<ge> 1\<close>, for a station code and a product type
  of plain text, a run of \<open>extract_and_save\<close> from a clean
  state over \<open>M * N\<close> granules that all extract, every write being accepted, has exactly
  \<open>M\<close> checkpoint files when the loop ends, each of exactly \<open>N\<close> records; it returns
  the path of the final artifact, which holds the \<open>M * N\<close> extracted records sorted by
  ascending time.
\<close>

theorem full_batches_checkpoints_and_final:
  assumes bs: "batch_size ex = int N" "1 \<le> N" and M: "1 \<le> M"
    and len: "length granules = M * N"
    and opn: "earthaccess_open granules = Inr fs" "length fs = length granules"
    and ok: "\<forall>f\<in>set fs. \<exists>r.
               extract_granule_pixel f lat lon (if pt = ''Rrs'' then ''Rrs'' else ''Rrc'') = Inr r"
    and wr: "\<forall>p. wr p"
    and clean: "glob_checkpoints w sc pt = []" "\<not> path_exists w (final_name sc pt)"
    and dist: "distinct (map fst (files w))"
    and lit: "glob_literal sc" "glob_literal pt"
  shows "\<exists>w1 w2 final_ds.
      extract_batches ex wr earthaccess_open sc granules lat lon pt 0
        (log_event ListCheckpoints w) = Inr w1
    \<and> length (glob_checkpoints w1 sc pt) = M
    \<and> (\<forall>p\<in>set (glob_checkpoints w1 sc pt).
          \<exists>ds. map_of (files w1) p = Some ds \<and> length (records ds) = N)
    \<and> extract_and_save ex wr earthaccess_open sc granules lat lon pt w
        = (Inr (Some (final_name sc pt)), w2)
    \<and> glob_checkpoints w2 sc pt = []
    \<and> map_of (files w2) (final_name sc pt) = Some final_ds
    \<and> length (records final_ds) = M * N
    \<and> sorted (map time (records final_ds))
    \<and> mset (records final_ds)
        = mset (extracted
                  (\<lambda>f. extract_granule_pixel f lat lon (if pt = ''Rrs'' then ''Rrs'' else ''Rrc''))
                  fs)"
proof -
  let ?ext = "\<lambda>f. extract_granule_pixel f lat lon (if pt = ''Rrs'' then ''Rrs'' else ''Rrc'')"
  let ?key = "\<lambda>j. checkpoint_name sc pt (int (j + 1))"
  let ?v = "\<lambda>j. \<lparr>records = extracted ?ext (take N (drop (j * N) fs)), attrs = []\<rparr>"
  let ?w0 = "log_event (OpenGranules granules) (log_event ListCheckpoints w)"
  define w1 where "w1 = snd (extract_loop ex wr ?ext sc pt 0 (int (length granules)) 0 fs ([], ?w0))"
  have N0: "0 < N" using bs(2) by simp
  have lenfs: "length fs = M * N" using opn(2) len by simp
  have eb: "extract_batches ex wr earthaccess_open sc granules lat lon pt 0
              (log_event ListCheckpoints w) = Inr w1"
    unfolding w1_def by (rule extract_batches_from_start) (rule opn(1))
  have f0: "files ?w0 = files w" by (simp add: log_event_def)
  have fw: "files w1 = fold (\<lambda>j. AList.update (?key j) (?v j)) [0..<M] (files w)"
    unfolding w1_def opn(2) [symmetric]
    using full_batches_files [OF bs(1) N0 lenfs ok wr, of sc pt ?w0] f0 by simp
  note L = batches_listing [OF clean(1) dist fw]
  have lenM: "length (glob_checkpoints w1 sc pt) = M" by (rule L(3))
  have block_len: "length (records (?v j)) = N" if "j < M" for j
  proof -
    have "Suc j \<le> M" using that by simp
    then have "Suc j * N \<le> M * N" by (rule mult_le_mono1)
    then have l: "length (take N (drop (j * N) fs)) = N" using lenfs by simp
    have "\<forall>f\<in>set (take N (drop (j * N) fs)). \<exists>r. ?ext f = Inr r"
      using ok by (meson in_set_dropD in_set_takeD)
    then show ?thesis using l by (simp add: length_extracted_ok)
  qed
  have contents: "\<forall>p\<in>set (glob_checkpoints w1 sc pt).
          \<exists>ds. map_of (files w1) p = Some ds \<and> length (records ds) = N"
  proof
    fix p assume "p \<in> set (glob_checkpoints w1 sc pt)"
    then obtain j where j: "j < M" "p = ?key j" unfolding L(1) by auto
    then have "map_of (files w1) p = Some (?v j)" using L(5) by simp
    then show "\<exists>ds. map_of (files w1) p = Some ds \<and> length (records ds) = N"
      using block_len [OF j(1)] by blast
  qed
  have ne: "glob_checkpoints w1 sc pt \<noteq> []" using lenM M by auto
  have wf: "wr (final_name sc pt)" using wr by simp
  from finalize_station_outcomes [OF ne L(6), of wr ex] wf
  obtain w2 final_ds where
    fin: "finalize_station ex wr sc pt (final_name sc pt) w1 = (Inr (Some (final_name sc pt)), w2)"
    and g2: "glob_checkpoints w2 sc pt = []"
    and m2: "map_of (files w2) (final_name sc pt) = Some final_ds"
    and s2: "sorted (map time (records final_ds))"
    and ms2: "mset (records final_ds) = mset (records (open_mfdataset w1 (glob_checkpoints w1 sc pt)))"
    by blast
  have run: "extract_and_save ex wr earthaccess_open sc granules lat lon pt w
        = (Inr (Some (final_name sc pt)), w2)"
    by (simp add: extract_and_save_clean [OF clean(2) clean(1)] eb fin)
  let ?g = "\<lambda>p. records (case map_of (files w1) p of
                           Some ds \<Rightarrow> ds | None \<Rightarrow> \<lparr>records = [], attrs = []\<rparr>)"
  have "records (open_mfdataset w1 (glob_checkpoints w1 sc pt)) =
        concat (map ?g (glob_checkpoints w1 sc pt))"
    by (simp add: open_mfdataset_def Let_def comp_def)
  then have "mset (records (open_mfdataset w1 (glob_checkpoints w1 sc pt))) =
        mset (concat (map ?g (map ?key [0..<M])))"
    using mset_concat_map_cong [OF L(4), of ?g] by simp
  also have "map ?g (map ?key [0..<M]) = map (\<lambda>j. extracted ?ext (take N (drop (j * N) fs))) [0..<M]"
    using L(5) by simp
  also have "concat (map (\<lambda>j. extracted ?ext (take N (drop (j * N) fs))) [0..<M]) =
        extracted ?ext (concat (map (\<lambda>j. take N (drop (j * N) fs)) [0..<M]))"
    by (simp add: extracted_concat comp_def)
  also have "concat (map (\<lambda>j. take N (drop (j * N) fs)) [0..<M]) = fs"
    using lenfs by (simp add: concat_blocks)
  finally have all: "mset (records (open_mfdataset w1 (glob_checkpoints w1 sc pt))) =
        mset (extracted ?ext fs)" .
  have ms: "mset (records final_ds) = mset (extracted ?ext fs)" using ms2 all by simp
  then have "size (mset (records final_ds)) = size (mset (extracted ?ext fs))" by simp
  then have lf: "length (records final_ds) = M * N"
    using length_extracted_ok [OF ok] lenfs by simp
  show ?thesis using eb lenM contents run g2 m2 lf s2 ms by blast
qed

theorem full_batches_checkpoints_and_final_witness:
  "batch_size \<lparr>output_dir = ''out'', batch_size = 2\<rparr> = int 2
   \<and> length [one_pixel_granule 20, one_pixel_granule 10] = 1 * 2
   \<and> extract_granule_pixel (one_pixel_granule 20) 0 0 ''Rrs'' = Inr (one_pixel_record 20)
   \<and> extract_granule_pixel (one_pixel_granule 10) 0 0 ''Rrs'' = Inr (one_pixel_record 10)
   \<and> glob_checkpoints \<lparr>files = [], trace = ([] :: (granule_file, granule_file) event list)\<rparr>
        ''A'' ''Rrs'' = []
   \<and> \<not> path_exists \<lparr>files = [], trace = ([] :: (granule_file, granule_file) event list)\<rparr>
          (final_name ''A'' ''Rrs'')
   \<and> glob_literal ''A'' \<and> glob_literal ''Rrs''
   \<and> (\<exists>w1 w2 final_ds.
        extract_batches \<lparr>output_dir = ''out'', batch_size = 2\<rparr> (\<lambda>p. True) Inr ''A''
          [one_pixel_granule 20, one_pixel_granule 10] 0 0 ''Rrs'' 0
          (log_event ListCheckpoints
             \<lparr>files = [], trace = ([] :: (granule_file, granule_file) event list)\<rparr>) = Inr w1
      \<and> length (glob_checkpoints w1 ''A'' ''Rrs'') = 1
      \<and> extract_and_save \<lparr>output_dir = ''out'', batch_size = 2\<rparr> (\<lambda>p. True) Inr ''A''
          [one_pixel_granule 20, one_pixel_granule 10] 0 0 ''Rrs''
          \<lparr>files = [], trace = ([] :: (granule_file, granule_file) event list)\<rparr>
          = (Inr (Some (final_name ''A'' ''Rrs'')), w2)
      \<and> map_of (files w2) (final_name ''A'' ''Rrs'') = Some final_ds
      \<and> length (records final_ds) = 1 * 2
      \<and> sorted (map time (records final_ds))
      \<and> mset (records final_ds) = mset [one_pixel_record 20, one_pixel_record 10])"
proof -
  let ?ex = "\<lparr>output_dir = ''out'', batch_size = 2\<rparr>"
  let ?G = "[one_pixel_granule 20, one_pixel_granule 10]"
  let ?w = "\<lparr>files = [], trace = ([] :: (granule_file, granule_file) event list)\<rparr>"
  have bs: "batch_size ?ex = int 2" "1 \<le> (2::nat)" and M: "1 \<le> (1::nat)" by simp_all
  have len: "length ?G = 1 * 2" by simp
  have opn: "Inr ?G = (Inr ?G :: error + granule_file list)" "length ?G = length ?G" by simp_all
  have e1: "extract_granule_pixel (one_pixel_granule 20) 0 0 ''Rrs'' = Inr (one_pixel_record 20)"
    and e2: "extract_granule_pixel (one_pixel_granule 10) 0 0 ''Rrs'' = Inr (one_pixel_record 10)"
    by (rule extract_one_pixel_granule)+
  have ok: "\<forall>f\<in>set ?G. \<exists>r.
               extract_granule_pixel f 0 0 (if ''Rrs'' = ''Rrs'' then ''Rrs'' else ''Rrc'') = Inr r"
    using e1 e2 by simp
  have wr: "\<forall>p. (\<lambda>p. True) p" by simp
  have clean: "glob_checkpoints ?w ''A'' ''Rrs'' = []" "\<not> path_exists ?w (final_name ''A'' ''Rrs'')"
    by (simp_all add: glob_checkpoints_def path_exists_def)
  have dist: "distinct (map fst (files ?w))" by simp
  have lit: "glob_literal ''A''" "glob_literal ''Rrs''" by (simp_all add: glob_literal_def)
  note inst = full_batches_checkpoints_and_final
    [where ex = ?ex and N = 2 and M = 1 and granules = ?G and earthaccess_open = Inr
       and fs = ?G and lat = 0 and lon = 0 and pt = "''Rrs''" and wr = "\<lambda>p. True"
       and w = ?w and sc = "''A''"]
  from inst [OF bs M len opn ok wr clean dist lit]
  show ?thesis using e1 e2 clean lit by (simp add: extracted_def) blast
qed

section \<open>A partial last batch\<close>

lemma checkpoint_name_A_Rrs_1: "checkpoint_name ''A'' ''Rrs'' 1 = ''checkpoint_A_Rrs_b0001.nc''"
  by (simp add: checkpoint_name_def format_04d_def zfill_def decimal.simps digit_char_def
      eval_nat_numeral)

lemma distinct_singleton: "distinct xs \<Longrightarrow> set xs = {x} \<Longrightarrow> xs = [x]"
proof -
  assume d: "distinct xs" and s: "set xs = {x}"
  have "length xs = 1" using distinct_card [OF d] s by simp
  then obtain y where "xs = [y]" by (cases xs) auto
  then show ?thesis using s by simp
qed

text \<open>
  C1: the spec has a run over \<open>N + 1\<close> granules with batch size \<open>N \<ge> 2\<close> produce two
  checkpoints, of \<open>N\<close> records and of 1 record. In the code the batch number of a
  checkpoint is the 1-based position of its last granule divided by the batch size, which
  is 1 for position \<open>N\<close> and again 1 for position \<open>N + 1\<close>: the second write goes to
  the file of the first and replaces it. When the loop ends there is one checkpoint, and
  it holds the record of the last granule only.
\<close>

theorem partial_batch_overwrites_full_batch:
  assumes bs: "batch_size ex = int N" "2 \<le> N"
    and len: "length granules = N + 1"
    and opn: "earthaccess_open granules = Inr fs" "length fs = length granules"
    and ok: "\<forall>f\<in>set fs. \<exists>r.
               extract_granule_pixel f lat lon (if pt = ''Rrs'' then ''Rrs'' else ''Rrc'') = Inr r"
    and wr: "\<forall>p. wr p"
    and clean: "glob_checkpoints w sc pt = []"
    and dist: "distinct (map fst (files w))"
  shows "\<exists>w1.
      extract_batches ex wr earthaccess_open sc granules lat lon pt 0
        (log_event ListCheckpoints w) = Inr w1
    \<and> glob_checkpoints w1 sc pt = [checkpoint_name sc pt 1]
    \<and> map_of (files w1) (checkpoint_name sc pt 1)
        = Some \<lparr>records =
                  extracted
                    (\<lambda>f. extract_granule_pixel f lat lon (if pt = ''Rrs'' then ''Rrs'' else ''Rrc''))
                    (drop N fs),
                attrs = []\<rparr>
    \<and> length (extracted
                 (\<lambda>f. extract_granule_pixel f lat lon (if pt = ''Rrs'' then ''Rrs'' else ''Rrc''))
                 (drop N fs)) = 1"
proof -
  let ?ext = "\<lambda>f. extract_granule_pixel f lat lon (if pt = ''Rrs'' then ''Rrs'' else ''Rrc'')"
  let ?w0 = "log_event (OpenGranules granules) (log_event ListCheckpoints w)"
  define w1 where "w1 = snd (extract_loop ex wr ?ext sc pt 0 (int (length granules)) 0 fs ([], ?w0))"
  have N0: "0 < N" using bs(2) by simp
  have lenfs: "length fs = N + 1" using opn(2) len by simp
  have eb: "extract_batches ex wr earthaccess_open sc granules lat lon pt 0
              (log_event ListCheckpoints w) = Inr w1"
    unfolding w1_def by (rule extract_batches_from_start) (rule opn(1))
  have f0: "files ?w0 = files w" by (simp add: log_event_def)
  have "(N + 1) div N = 1 div N + 1" using N0 by (simp only: div_add_self1)
  moreover have "(N + 1) mod N = 1 mod N" by (simp only: mod_add_self1)
  moreover have "1 div N = 0" "1 mod N = 1" using bs(2) by simp_all
  ultimately have q: "length fs div N = 1" and r: "length fs mod N \<noteq> 0"
    unfolding lenfs by simp_all
  have fw: "files w1 =
      AList.update (checkpoint_name sc pt 1)
        \<lparr>records = extracted ?ext (drop N fs), attrs = []\<rparr>
        (AList.update (checkpoint_name sc pt 1)
           \<lparr>records = extracted ?ext (take N fs), attrs = []\<rparr> (files w))"
    unfolding w1_def opn(2) [symmetric]
    using extract_loop_run [OF bs(1) N0 ok wr, of sc pt ?w0] q r f0 by (simp add: Let_def)
  have m: "map_of (files w1) (checkpoint_name sc pt 1) =
        Some \<lparr>records = extracted ?ext (drop N fs), attrs = []\<rparr>"
    unfolding fw by (simp add: update_conv')
  have keys: "fst ` set (files w1) = insert (checkpoint_name sc pt 1) (fst ` set (files w))"
    unfolding fw by (simp add: dom_update)
  have nomatch: "\<forall>n \<in> fst ` set (files w). \<not> checkpoint_pattern_match sc pt n"
    using clean by (simp only: glob_checkpoints_Nil_iff)
  have s: "set (glob_checkpoints w1 sc pt) = {checkpoint_name sc pt 1}"
    unfolding set_glob_checkpoints keys using nomatch
    by (auto simp add: checkpoint_name_match)
  have "distinct (map fst (files w1))"
    unfolding fw using dist by (simp add: distinct_update)
  then have "distinct (glob_checkpoints w1 sc pt)" by (rule distinct_glob_checkpoints)
  then have g: "glob_checkpoints w1 sc pt = [checkpoint_name sc pt 1]"
    using s by (rule distinct_singleton)
  have "\<forall>f\<in>set (drop N fs). \<exists>r. ?ext f = Inr r" using ok by (meson in_set_dropD)
  then have l: "length (extracted ?ext (drop N fs)) = 1"
    using lenfs by (simp add: length_extracted_ok)
  show ?thesis using eb g m l by blast
qed

theorem partial_batch_overwrites_full_batch_witness:
  "batch_size \<lparr>output_dir = ''out'', batch_size = 2\<rparr> = int 2
   \<and> length [one_pixel_granule 10, one_pixel_granule 20, one_pixel_granule 30] = 2 + 1
   \<and> extract_granule_pixel (one_pixel_granule 10) 0 0 ''Rrs'' = Inr (one_pixel_record 10)
   \<and> extract_granule_pixel (one_pixel_granule 20) 0 0 ''Rrs'' = Inr (one_pixel_record 20)
   \<and> extract_granule_pixel (one_pixel_granule 30) 0 0 ''Rrs'' = Inr (one_pixel_record 30)
   \<and> glob_checkpoints \<lparr>files = [], trace = ([] :: (granule_file, granule_file) event list)\<rparr>
        ''A'' ''Rrs'' = []
   \<and> (\<exists>w1.
        extract_batches \<lparr>output_dir = ''out'', batch_size = 2\<rparr> (\<lambda>p. True) Inr ''A''
          [one_pixel_granule 10, one_pixel_granule 20, one_pixel_granule 30] 0 0 ''Rrs'' 0
          (log_event ListCheckpoints
             \<lparr>files = [], trace = ([] :: (granule_file, granule_file) event list)\<rparr>) = Inr w1
      \<and> glob_checkpoints w1 ''A'' ''Rrs'' = [''checkpoint_A_Rrs_b0001.nc'']
      \<and> map_of (files w1) ''checkpoint_A_Rrs_b0001.nc''
          = Some \<lparr>records = [one_pixel_record 30], attrs = []\<rparr>)"
proof -
  let ?ex = "\<lparr>output_dir = ''out'', batch_size = 2\<rparr>"
  let ?G = "[one_pixel_granule 10, one_pixel_granule 20, one_pixel_granule 30]"
  let ?w = "\<lparr>files = [], trace = ([] :: (granule_file, granule_file) event list)\<rparr>"
  have bs: "batch_size ?ex = int 2" "2 \<le> (2::nat)" by simp_all
  have len: "length ?G = 2 + 1" by simp
  have opn: "Inr ?G = (Inr ?G :: error + granule_file list)" "length ?G = length ?G" by simp_all
  have e1: "extract_granule_pixel (one_pixel_granule 10) 0 0 ''Rrs'' = Inr (one_pixel_record 10)"
    and e2: "extract_granule_pixel (one_pixel_granule 20) 0 0 ''Rrs'' = Inr (one_pixel_record 20)"
    and e3: "extract_granule_pixel (one_pixel_granule 30) 0 0 ''Rrs'' = Inr (one_pixel_record 30)"
    by (rule extract_one_pixel_granule)+
  have ok: "\<forall>f\<in>set ?G. \<exists>r.
               extract_granule_pixel f 0 0 (if ''Rrs'' = ''Rrs'' then ''Rrs'' else ''Rrc'') = Inr r"
    using e1 e2 e3 by simp
  have wr: "\<forall>p. (\<lambda>p. True) p" by simp
  have clean: "glob_checkpoints ?w ''A'' ''Rrs'' = []"
    by (simp add: glob_checkpoints_def)
  have dist: "distinct (map fst (files ?w))" by simp
  note inst = partial_batch_overwrites_full_batch
    [where ex = ?ex and N = 2 and granules = ?G and earthaccess_open = Inr
       and fs = ?G and lat = 0 and lon = 0 and pt = "''Rrs''" and wr = "\<lambda>p. True"
       and w = ?w and sc = "''A''"]
  from inst [OF bs len opn ok wr clean dist]
  show ?thesis using e1 e2 e3 clean
    by (simp add: checkpoint_name_A_Rrs_1 extracted_def)
qed

section \<open>Failures and batch indices\<close>

lemma run_eval_simps:
  "extract_batches ex wr eo sc gs la lo pt pc w =
     (case eo (slice_from gs pc) of
           Inl e \<Rightarrow> Inl e
         | Inr fs \<Rightarrow>
             Inr (snd (extract_loop ex wr (\<lambda>f. extract_granule_pixel f la lo (if pt = ''Rrs'' then ''Rrs'' else ''Rrc''))
                        sc pt pc (int (length gs)) 0 fs ([], log_event (OpenGranules (slice_from gs pc)) w))))"
  by (simp add: extract_batches_def Let_def split: sum.splits)

text \<open>
  C4: the spec has a run in which exactly one extraction fails, at any position, leave
  checkpoints with all the other records. In the code the test that saves the batch sits
  inside the \<open>try\<close> block, after the extraction, so a granule that fails skips it. With
  batch size 2 and two granules of which the second fails, the batch that holds the
  record of the first granule is never written: the loop ends with no checkpoint, and
  \<open>extract_and_save\<close> returns \<open>None\<close>. The run does not abort.
\<close>

theorem last_granule_failure_loses_batch:
  "map_sum id files
     (extract_batches \<lparr>output_dir = ''out'', batch_size = 2\<rparr> always_writable Inr ''A''
        [one_pixel_granule 10, empty_granule] 0 0 ''Rrs'' 0
        (log_event ListCheckpoints
           \<lparr>files = [], trace = ([] :: (granule_file, granule_file) event list)\<rparr>))
     = Inr []
   \<and> fst (extract_and_save \<lparr>output_dir = ''out'', batch_size = 2\<rparr> always_writable Inr ''A''
        [one_pixel_granule 10, empty_granule] 0 0 ''Rrs''
        \<lparr>files = [], trace = ([] :: (granule_file, granule_file) event list)\<rparr>)
     = Inr None"
  by (simp add: always_writable_def extract_and_save_def run_eval_simps slice_from_def loop_body_def
      extract_one_pixel_granule extract_empty_granule log_event_def glob_checkpoints_def
      path_exists_def finalize_station_def Let_def)

text \<open>
  C2: the spec has the checkpoint of batch index \<open>b\<close> hold the granules at positions
  \<open>[b * batch_size, (b + 1) * batch_size)\<close>. The code takes the batch number from the
  1-based position of the last granule of the batch, the same division that makes the
  last partial batch overwrite a full one. With batch size 2 and two granules that
  extract, the loop leaves one checkpoint, of batch index 1, and it holds the records of
  both granules, which are at positions 0 and 1; the positions \<open>[1 * 2, 2 * 2)\<close> that the
  spec gives to index 1 hold no granule, and there is no checkpoint of index 0.
\<close>

theorem first_batch_written_under_index_1:
  "map_sum id files
     (extract_batches \<lparr>output_dir = ''out'', batch_size = 2\<rparr> always_writable Inr ''A''
        [one_pixel_granule 10, one_pixel_granule 20] 0 0 ''Rrs'' 0
        (log_event ListCheckpoints
           \<lparr>files = [], trace = ([] :: (granule_file, granule_file) event list)\<rparr>))
     = Inr [(checkpoint_name ''A'' ''Rrs'' 1,
             \<lparr>records = [one_pixel_record 10, one_pixel_record 20], attrs = []\<rparr>)]
   \<and> take 2 (drop (1 * 2) [one_pixel_record 10, one_pixel_record 20]) = []"
  by (simp add: always_writable_def run_eval_simps slice_from_def loop_body_def
      extract_one_pixel_granule log_event_def get_checkpoint_path_def to_netcdf_def Let_def)

section \<open>Resumption\<close>

lemma granule_events_append [simp]:
  "granule_events (xs @ ys) = granule_events xs @ granule_events ys"
  by (simp add: granule_events_def)

lemma granule_events_DeleteFile [simp]: "granule_events (map DeleteFile ps) = []"
  by (induction ps) (simp_all add: granule_events_def)

lemma granule_events_ExtractPixel [simp]:
  "granule_events (map ExtractPixel fs) = map ExtractPixel fs"
  by (induction fs) (simp_all add: granule_events_def)

lemma granule_events_loop_body:
  "granule_events (trace (snd (loop_body ex wr ext sc pt pc T i f st))) =
   granule_events (trace (snd st)) @ [ExtractPixel f]"
  by (simp add: loop_body_def Let_def get_checkpoint_path_def to_netcdf_def log_event_def
      granule_events_def split: sum.splits)

lemma granule_events_extract_loop:
  "granule_events (trace (snd (extract_loop ex wr ext sc pt pc T i fs st))) =
   granule_events (trace (snd st)) @ map ExtractPixel fs"
  by (induction fs arbitrary: i st) (simp_all add: granule_events_loop_body)

lemma granule_events_finalize_station:
  "granule_events (trace (snd (finalize_station ex wr sc pt fp w))) = granule_events (trace w)"
proof (cases "glob_checkpoints w sc pt = []")
  case True
  then show ?thesis
    by (simp add: finalize_station_none log_event_def granule_events_def)
next
  case False
  show ?thesis
  proof (cases "wr fp")
    case True
    show ?thesis
      by (simp add: finalize_station_written [where wr = wr and fp = fp, OF False True]
          trace_fold_unlink) (simp add: granule_events_def)
  next
    case nw: False
    show ?thesis
      by (simp add: finalize_station_refused [where wr = wr and fp = fp, OF False nw]
          log_event_def granule_events_def)
  qed
qed

text \<open>
  C5: without a final artifact, and for a station code and a product type of plain text,
  \<open>extract_and_save\<close> takes \<open>processed_count\<close> to be the
  number of checkpoint files times the batch size. When that is at least the number of
  granules and there is a granule, the run is the finalizer alone: it opens no granule and
  extracts from no file. Otherwise it asks the collaborator to open
  \<open>granules[processed_count:]\<close> and nothing else, extracts from each stream it gets, once
  and in order, counting the first as global position \<open>processed_count + 1\<close>, and then
  finalizes.
\<close>

theorem extract_and_save_resumes_at_offset:
  assumes nofinal: "\<not> path_exists w (final_name sc pt)"
    and lit: "glob_literal sc" "glob_literal pt"
    and pc: "processed_count = int (length (glob_checkpoints w sc pt)) * batch_size ex"
    and tg: "total_granules = int (length granules)"
  shows "(total_granules \<le> processed_count \<and> 0 < total_granules \<longrightarrow>
            extract_and_save ex wr earthaccess_open sc granules lat lon pt w
              = finalize_station ex wr sc pt (final_name sc pt) (log_event ListCheckpoints w)
          \<and> granule_events
               (trace (snd (extract_and_save ex wr earthaccess_open sc granules lat lon pt w)))
              = granule_events (trace w))
       \<and> (\<not> (total_granules \<le> processed_count \<and> 0 < total_granules) \<longrightarrow>
            (\<forall>fs. earthaccess_open (slice_from granules processed_count) = Inr fs \<longrightarrow>
               extract_and_save ex wr earthaccess_open sc granules lat lon pt w
                 = finalize_station ex wr sc pt (final_name sc pt)
                     (snd (extract_loop ex wr
                             (\<lambda>f. extract_granule_pixel f lat lon
                                    (if pt = ''Rrs'' then ''Rrs'' else ''Rrc''))
                             sc pt processed_count total_granules 0 fs
                             ([], log_event (OpenGranules (slice_from granules processed_count))
                                    (log_event ListCheckpoints w))))
             \<and> granule_events
                  (trace (snd (extract_and_save ex wr earthaccess_open sc granules lat lon pt w)))
                 = granule_events (trace w)
                   @ OpenGranules (slice_from granules processed_count) # map ExtractPixel fs))
       \<and> (0 \<le> processed_count \<longrightarrow>
            slice_from granules processed_count = drop (nat processed_count) granules)"
proof (intro conjI impI allI)
  assume skip: "total_granules \<le> processed_count \<and> 0 < total_granules"
  show a: "extract_and_save ex wr earthaccess_open sc granules lat lon pt w
              = finalize_station ex wr sc pt (final_name sc pt) (log_event ListCheckpoints w)"
    using nofinal skip pc tg by (simp add: extract_and_save_def Let_def)
  show "granule_events
               (trace (snd (extract_and_save ex wr earthaccess_open sc granules lat lon pt w)))
              = granule_events (trace w)"
    unfolding a granule_events_finalize_station
    by (simp add: log_event_def) (simp add: granule_events_def)
next
  fix fs
  assume res: "\<not> (total_granules \<le> processed_count \<and> 0 < total_granules)"
    and opn: "earthaccess_open (slice_from granules processed_count) = Inr fs"
  show a: "extract_and_save ex wr earthaccess_open sc granules lat lon pt w
                 = finalize_station ex wr sc pt (final_name sc pt)
                     (snd (extract_loop ex wr
                             (\<lambda>f. extract_granule_pixel f lat lon
                                    (if pt = ''Rrs'' then ''Rrs'' else ''Rrc''))
                             sc pt processed_count total_granules 0 fs
                             ([], log_event (OpenGranules (slice_from granules processed_count))
                                    (log_event ListCheckpoints w))))"
    using nofinal res opn pc tg
    by (auto simp add: extract_and_save_def extract_batches_def Let_def)
  show "granule_events
                  (trace (snd (extract_and_save ex wr earthaccess_open sc granules lat lon pt w)))
                 = granule_events (trace w)
                   @ OpenGranules (slice_from granules processed_count) # map ExtractPixel fs"
    unfolding a granule_events_finalize_station granule_events_extract_loop
    by (simp add: log_event_def) (simp add: granule_events_def)
next
  assume "0 \<le> processed_count"
  then show "slice_from granules processed_count = drop (nat processed_count) granules"
    by (simp add: slice_from_def)
qed

theorem extract_and_save_resumes_at_offset_witness:
  "\<not> path_exists
       \<lparr>files = [(''checkpoint_A_Rrs_b0001.nc'',
                  \<lparr>records = [one_pixel_record 10, one_pixel_record 20], attrs = []\<rparr>)],
        trace = ([] :: (granule_file, granule_file) event list)\<rparr>
       (final_name ''A'' ''Rrs'')
   \<and> glob_literal ''A'' \<and> glob_literal ''Rrs''
   \<and> int (length (glob_checkpoints
          \<lparr>files = [(''checkpoint_A_Rrs_b0001.nc'',
                  \<lparr>records = [one_pixel_record 10, one_pixel_record 20], attrs = []\<rparr>)],
           trace = ([] :: (granule_file, granule_file) event list)\<rparr> ''A'' ''Rrs''))
        * batch_size \<lparr>output_dir = ''out'', batch_size = 2\<rparr> = 2
   \<and> granule_events
        (trace (snd (extract_and_save \<lparr>output_dir = ''out'', batch_size = 2\<rparr> (\<lambda>p. True) Inr ''A''
           [one_pixel_granule 10, one_pixel_granule 20] 0 0 ''Rrs''
           \<lparr>files = [(''checkpoint_A_Rrs_b0001.nc'',
                  \<lparr>records = [one_pixel_record 10, one_pixel_record 20], attrs = []\<rparr>)],
             trace = ([] :: (granule_file, granule_file) event list)\<rparr>))) = []
   \<and> slice_from [one_pixel_granule 10, one_pixel_granule 20, one_pixel_granule 30] 2
        = [one_pixel_granule 30]
   \<and> granule_events
        (trace (snd (extract_and_save \<lparr>output_dir = ''out'', batch_size = 2\<rparr> (\<lambda>p. True) Inr ''A''
           [one_pixel_granule 10, one_pixel_granule 20, one_pixel_granule 30] 0 0 ''Rrs''
           \<lparr>files = [(''checkpoint_A_Rrs_b0001.nc'',
                  \<lparr>records = [one_pixel_record 10, one_pixel_record 20], attrs = []\<rparr>)],
             trace = ([] :: (granule_file, granule_file) event list)\<rparr>)))
        = [OpenGranules [one_pixel_granule 30], ExtractPixel (one_pixel_granule 30)]"
proof -
  let ?ex = "\<lparr>output_dir = ''out'', batch_size = 2\<rparr>"
  let ?w = "\<lparr>files = [(''checkpoint_A_Rrs_b0001.nc'',
                  \<lparr>records = [one_pixel_record 10, one_pixel_record 20], attrs = []\<rparr>)],
             trace = ([] :: (granule_file, granule_file) event list)\<rparr>"
  let ?G2 = "[one_pixel_granule 10, one_pixel_granule 20]"
  let ?G3 = "[one_pixel_granule 10, one_pixel_granule 20, one_pixel_granule 30]"
  have nofinal: "\<not> path_exists ?w (final_name ''A'' ''Rrs'')"
    by (simp add: path_exists_def final_name_def)
  have lit: "glob_literal ''A''" "glob_literal ''Rrs''" by (simp_all add: glob_literal_def)
  have pc: "2 = int (length (glob_checkpoints ?w ''A'' ''Rrs'')) * batch_size ?ex"
    by (simp add: glob_checkpoints_def checkpoint_pattern_match_def glob_match_def)
  have t2: "2 = int (length ?G2)" and t3: "3 = int (length ?G3)" by simp_all
  have sl: "slice_from ?G3 2 = [one_pixel_granule 30]" by (simp add: slice_from_def)
  note skip = extract_and_save_resumes_at_offset
    [where ex = ?ex and wr = "\<lambda>p. True" and earthaccess_open = Inr and sc = "''A''"
       and pt = "''Rrs''" and lat = 0 and lon = 0 and w = ?w and granules = ?G2
       and processed_count = 2 and total_granules = 2, OF nofinal lit pc t2]
  note resume = extract_and_save_resumes_at_offset
    [where ex = ?ex and wr = "\<lambda>p. True" and earthaccess_open = Inr and sc = "''A''"
       and pt = "''Rrs''" and lat = 0 and lon = 0 and w = ?w and granules = ?G3
       and processed_count = 2 and total_granules = 3, OF nofinal lit pc t3]
  have a: "granule_events
        (trace (snd (extract_and_save ?ex (\<lambda>p. True) Inr ''A'' ?G2 0 0 ''Rrs'' ?w))) = []"
  proof -
    have "(2::int) \<le> 2 \<and> (0::int) < 2" by simp
    with skip have "granule_events
        (trace (snd (extract_and_save ?ex (\<lambda>p. True) Inr ''A'' ?G2 0 0 ''Rrs'' ?w)))
        = granule_events (trace ?w)" by blast
    then show ?thesis by (simp add: granule_events_def)
  qed
  have b: "granule_events
        (trace (snd (extract_and_save ?ex (\<lambda>p. True) Inr ''A'' ?G3 0 0 ''Rrs'' ?w)))
        = [OpenGranules [one_pixel_granule 30], ExtractPixel (one_pixel_granule 30)]"
  proof -
    have "\<not> ((3::int) \<le> 2 \<and> (0::int) < 3)" by simp
    moreover have "Inr (slice_from ?G3 2) = (Inr [one_pixel_granule 30] :: error + granule_file list)"
      using sl by simp
    ultimately have "granule_events
        (trace (snd (extract_and_save ?ex (\<lambda>p. True) Inr ''A'' ?G3 0 0 ''Rrs'' ?w)))
        = granule_events (trace ?w)
          @ OpenGranules (slice_from ?G3 2) # map ExtractPixel [one_pixel_granule 30]"
      using resume by blast
    then show ?thesis using sl by (simp add: granule_events_def)
  qed
  show ?thesis using nofinal lit pc a b sl by simp
qed

section \<open>The nearest pixel\<close>

lemma argmin_from_None:
  "argmin_from xs i best = None \<Longrightarrow> best = None \<and> (\<forall>d. Some d \<notin> set xs)"
proof (induction xs i best rule: argmin_from.induct)
  case (1 i best)
  then show ?case by simp
next
  case (2 xs i best)
  then show ?case by simp
next
  case (3 d xs i best)
  then show ?case by (auto split: option.splits if_splits)
qed

lemma argmin_from_Some:
  assumes "argmin_from xs (length pre) best = Some k"
    and "case best of
           None \<Rightarrow> \<forall>d. Some d \<notin> set pre
         | Some (j, m) \<Rightarrow> j < length pre \<and> pre ! j = Some m \<and> (\<forall>d. Some d \<in> set pre \<longrightarrow> m \<le> d)"
  shows "k < length (pre @ xs) \<and>
         (\<exists>m. (pre @ xs) ! k = Some m \<and> (\<forall>d. Some d \<in> set (pre @ xs) \<longrightarrow> m \<le> d))"
  using assms
proof (induction xs arbitrary: pre best)
  case Nil
  then show ?case by (auto split: option.splits)
next
  case (Cons x xs)
  show ?case
  proof (cases x)
    case None
    have run: "argmin_from xs (length (pre @ [None])) best = Some k"
      using Cons.prems(1) None by simp
    have inv: "case best of
           None \<Rightarrow> \<forall>d. Some d \<notin> set (pre @ [None])
         | Some (j, m) \<Rightarrow> j < length (pre @ [None]) \<and> (pre @ [None]) ! j = Some m
                          \<and> (\<forall>d. Some d \<in> set (pre @ [None]) \<longrightarrow> m \<le> d)"
      using Cons.prems(2) by (auto split: option.splits simp add: nth_append)
    from Cons.IH [OF run inv] show ?thesis using None by simp
  next
    case (Some d)
    let ?best = "case best of None \<Rightarrow> Some (length pre, d)
                 | Some (j, m) \<Rightarrow> if d < m then Some (length pre, d) else Some (j, m)"
    have run: "argmin_from xs (length (pre @ [Some d])) ?best = Some k"
      using Cons.prems(1) Some by simp
    have inv: "case ?best of
           None \<Rightarrow> \<forall>e. Some e \<notin> set (pre @ [Some d])
         | Some (j, m) \<Rightarrow> j < length (pre @ [Some d]) \<and> (pre @ [Some d]) ! j = Some m
                          \<and> (\<forall>e. Some e \<in> set (pre @ [Some d]) \<longrightarrow> m \<le> e)"
      using Cons.prems(2)
      by (auto split: option.splits simp add: nth_append)
    from Cons.IH [OF run inv] show ?thesis using Some by simp
  qed
qed

lemma argmin_Some:
  "argmin xs = Some k \<Longrightarrow>
   k < length xs \<and> (\<exists>m. xs ! k = Some m \<and> (\<forall>d. Some d \<in> set xs \<longrightarrow> m \<le> d))"
  using argmin_from_Some [of xs "[]" None k] by (simp add: argmin_def)

lemma argmin_exists: "Some d \<in> set xs \<Longrightarrow> \<exists>k. argmin xs = Some k"
  using argmin_from_None [of xs 0 None] by (cases "argmin xs") (auto simp add: argmin_def)

lemma length_concat_rect:
  "\<forall>row\<in>set a. length row = n \<Longrightarrow> length (concat a) = length a * n"
  by (induction a) simp_all

lemma concat_nth_rect:
  "\<forall>row\<in>set a. length row = n \<Longrightarrow> k < length a * n \<Longrightarrow>
   k div n < length a \<and> k mod n < n \<and> concat a ! k = a ! (k div n) ! (k mod n)"
proof (induction a arbitrary: k)
  case Nil
  then show ?case by simp
next
  case (Cons r a)
  have n: "0 < n" using Cons.prems(2) by (cases n) simp_all
  have lr: "length r = n" using Cons.prems(1) by simp
  show ?case
  proof (cases "k < n")
    case True
    then show ?thesis using lr by (simp add: nth_append)
  next
    case False
    then have k: "k = (k - n) + n" by simp
    have "k - n < length a * n" using Cons.prems(2) False by simp
    with Cons.IH [of "k - n"] Cons.prems(1)
    have ih: "(k - n) div n < length a" "concat a ! (k - n) = a ! ((k - n) div n) ! ((k - n) mod n)"
      by simp_all
    have d: "k div n = Suc ((k - n) div n)" and m: "k mod n = (k - n) mod n"
      using False n by (simp_all add: le_div_geq le_mod_geq)
    show ?thesis using ih False lr n unfolding d m by (simp add: nth_append)
  qed
qed

lemma nth_nth_in_concat:
  "iy < length a \<Longrightarrow> ix < length (a ! iy) \<Longrightarrow> a ! iy ! ix \<in> set (concat a)"
  by (metis concat_map_singleton nth_mem set_concat UN_I)

lemma map2_grid_row:
  assumes shp: "map length b = map length a" and iy: "iy < length a"
  shows "map2 (map2 f) a b ! iy = map2 f (a ! iy) (b ! iy)"
    and "length (b ! iy) = length (a ! iy)"
    and "length (map2 (map2 f) a b ! iy) = length (a ! iy)"
proof -
  have lab: "length b = length a" using shp by (metis length_map)
  show row: "length (b ! iy) = length (a ! iy)"
    using shp iy lab by (metis nth_map)
  show r: "map2 (map2 f) a b ! iy = map2 f (a ! iy) (b ! iy)"
    using iy lab by simp
  show "length (map2 (map2 f) a b ! iy) = length (a ! iy)"
    unfolding r using row by simp
qed

lemma map2_grid_nth:
  assumes shp: "map length b = map length a" and iy: "iy < length a" and ix: "ix < length (a ! iy)"
  shows "map2 (map2 f) a b ! iy ! ix = f (a ! iy ! ix) (b ! iy ! ix)"
  unfolding map2_grid_row(1) [OF shp iy] using ix map2_grid_row(2) [OF shp iy] by simp

lemma isel_in_range:
  "iy < length a \<Longrightarrow> ix < length (a ! iy) \<Longrightarrow> isel a iy ix = Inr (a ! iy ! ix)"
  by (simp add: isel_def)

subsection \<open>The 64-bit rounding at a tie\<close>

lemma round_half_even_near:
  assumes "\<bar>x - of_int n\<bar> < 1 / 2"
  shows "round_half_even x = n"
proof (cases "of_int n \<le> x")
  case True
  then have "\<lfloor>x\<rfloor> = n" using assms unfolding floor_eq_iff by linarith
  then show ?thesis using assms True by (simp add: round_half_even_def)
next
  case False
  then have f: "\<lfloor>x\<rfloor> = n - 1" using assms unfolding floor_eq_iff by simp
  have r: "1 / 2 < x - real_of_int (n - 1)" using assms False by simp
  show ?thesis unfolding round_half_even_def f Let_def using r by simp
qed

lemma binary64_binade:
  assumes "2 ^ k \<le> x" "x < 2 ^ (k + 1)" "k \<le> 52"
    and "\<bar>x * 2 ^ (52 - k) - of_int n\<bar> < 1 / 2"
  shows "binary64 x = of_int n / 2 ^ (52 - k)"
proof -
  have pos: "0 < x" using assms(1) by (smt (verit) zero_less_power)
  have b: "(1::real) < 2" by simp
  have up: "(2::real) powr real_of_int (int k + 1) = 2 ^ (k + 1)"
    using powr_realpow [of 2 "k + 1"] by (simp add: add.commute)
  have lo: "(2::real) powr real_of_int (int k) = 2 ^ k"
    using powr_realpow [of 2 k] by simp
  have "\<lfloor>log 2 x\<rfloor> = int k"
    unfolding floor_log_eq_powr_iff [OF pos b] up lo
    using assms(1,2) by simp
  then have e: "\<lfloor>log 2 \<bar>x\<bar>\<rfloor> - 52 = - int (52 - k)" using pos assms(3) by simp
  have p: "2 powr real_of_int (- int (52 - k)) = 1 / 2 ^ (52 - k)"
    using powr_realpow [of 2 "52 - k"] by (simp add: powr_minus divide_inverse)
  show ?thesis
    using pos unfolding binary64_def e Let_def p
    by (simp add: round_half_even_near [OF assms(4)])
qed

lemma binary64_0: "binary64 0 = 0"
  by (simp add: binary64_def)

lemma binary64_4: "binary64 4 = 4"
  using binary64_binade [of 2 4 "2 ^ 52"] by simp

lemma binary64_30: "binary64 30 = 30"
  using binary64_binade [of 4 30 "30 * 2 ^ 48"] by simp

lemma binary64_16: "binary64 16 = 16"
  using binary64_binade [of 4 16 "2 ^ 52"] by simp

lemma binary64_900: "binary64 900 = 900"
  using binary64_binade [of 9 900 "900 * 2 ^ 43"] by simp

lemma binary64_916: "binary64 916 = 916"
  using binary64_binade [of 9 916 "916 * 2 ^ 43"] by simp

lemma binary64_4_ulp: "binary64 (4 + 1 / 2 ^ 50) = 4 + 1 / 2 ^ 50"
  using binary64_binade [of 2 "4 + 1 / 2 ^ 50" "2 ^ 52 + 1"] by simp

lemma binary64_4_ulp_square: "binary64 ((4 + 1 / 2 ^ 50)\<^sup>2) = 16 + 1 / 2 ^ 47"
  using binary64_binade [of 4 "(4 + 1 / 2 ^ 50)\<^sup>2" "2 ^ 52 + 2"] by (simp add: power2_eq_square)

lemma binary64_916_ulp: "binary64 (16 + 1 / 2 ^ 47 + 900) = 916"
  using binary64_binade [of 9 "16 + 1 / 2 ^ 47 + 900" "916 * 2 ^ 43"] by simp

lemma binary64_30_square: "binary64 (30\<^sup>2) = 900"
  using binary64_900 by simp

lemma binary64_4_square: "binary64 (4\<^sup>2) = 16"
  using binary64_16 by simp

lemma binary64_916_sum: "binary64 (16 + 900) = 916"
  using binary64_916 by simp

lemma distance_binary64_first:
  "distance binary64 0 0 (Some (4 + 1 / 2 ^ 50)) (Some 30) = Some (binary64 (sqrt 916))"
  unfolding distance_def
  by (simp only: prod.case option.case binary64_0 diff_zero binary64_4_ulp binary64_30
        binary64_4_ulp_square binary64_30_square binary64_916_ulp)

lemma distance_binary64_second:
  "distance binary64 0 0 (Some 4) (Some 30) = Some (binary64 (sqrt 916))"
  unfolding distance_def
  by (simp only: prod.case option.case binary64_0 diff_zero binary64_4 binary64_30
        binary64_4_square binary64_30_square binary64_916_sum)

lemma sqrt_916_less: "sqrt (4\<^sup>2 + 30\<^sup>2) < sqrt ((4 + 1 / 2 ^ 50)\<^sup>2 + 30\<^sup>2)"
  by (simp add: power2_eq_square)

subsection \<open>The pixel that is returned\<close>

text \<open>
  Against C9 as the spec states it, three granules that have the three groups, on a grid
  of consistent shape. In the first the only pixel has no latitude and no longitude:
  there is no distance to minimise, \<open>argmin\<close> raises, and no record is returned. In the
  second the navigation group has no time-coverage-start attribute, and no record is
  returned. The third holds 64-bit coordinates, two pixels at longitude 30 and at
  latitudes \<open>4 + 2\<^sup>-\<^sup>5\<^sup>0\<close> and \<open>4\<close>, and the target is \<open>(0, 0)\<close>: the sums of squares of
  both round to 916, the computed distances are equal, and \<open>argmin\<close> takes the first
  pixel, whose Euclidean distance is not the least.
\<close>

theorem extract_granule_pixel_not_euclidean_nearest:
  "extract_granule_pixel
     \<lparr>group_navigation_data =
        Some \<lparr>latitude = [[None]], longitude = [[None]], coord_round = binary64,
              time_coverage_start = Some 7\<rparr>,
      group_geophysical_data =
        Some \<lparr>variables = [(''Rrs'', [[[Some 1]]])], geo_l2_flags = [[0]]\<rparr>,
      group_sensor_band_parameters = Some \<lparr>band_wavelength = [Some 400]\<rparr>\<rparr>
     0 0 ''Rrs''
   = Inl ExtractionError
   \<and> extract_granule_pixel
     \<lparr>group_navigation_data =
        Some \<lparr>latitude = [[Some 4]], longitude = [[Some 30]], coord_round = binary64,
              time_coverage_start = None\<rparr>,
      group_geophysical_data =
        Some \<lparr>variables = [(''Rrs'', [[[Some 1]]])], geo_l2_flags = [[0]]\<rparr>,
      group_sensor_band_parameters = Some \<lparr>band_wavelength = [Some 400]\<rparr>\<rparr>
     0 0 ''Rrs''
   = Inl ExtractionError
   \<and> extract_granule_pixel
     \<lparr>group_navigation_data =
        Some \<lparr>latitude = [[Some (4 + 1 / 2 ^ 50), Some 4]],
              longitude = [[Some 30, Some 30]], coord_round = binary64,
              time_coverage_start = Some 7\<rparr>,
      group_geophysical_data =
        Some \<lparr>variables = [(''Rrs'', [[[Some 1], [Some 2]]])], geo_l2_flags = [[0, 4]]\<rparr>,
      group_sensor_band_parameters = Some \<lparr>band_wavelength = [Some 400]\<rparr>\<rparr>
     0 0 ''Rrs''
   = Inr \<lparr>data_var = ''Rrs'', spectrum = [Some 1], wavelength = [Some 400], time = 7,
          l2_flags = 0, pixel_lat = Some (4 + 1 / 2 ^ 50), pixel_lon = Some 30\<rparr>
   \<and> sqrt (4\<^sup>2 + 30\<^sup>2) < sqrt ((4 + 1 / 2 ^ 50)\<^sup>2 + 30\<^sup>2)"
proof (intro conjI)
  show "extract_granule_pixel
     \<lparr>group_navigation_data =
        Some \<lparr>latitude = [[None]], longitude = [[None]], coord_round = binary64,
              time_coverage_start = Some 7\<rparr>,
      group_geophysical_data =
        Some \<lparr>variables = [(''Rrs'', [[[Some 1]]])], geo_l2_flags = [[0]]\<rparr>,
      group_sensor_band_parameters = Some \<lparr>band_wavelength = [Some 400]\<rparr>\<rparr>
     0 0 ''Rrs''
   = Inl ExtractionError"
    by (simp add: extract_granule_pixel_def distance_def argmin_def)
  show "extract_granule_pixel
     \<lparr>group_navigation_data =
        Some \<lparr>latitude = [[Some 4]], longitude = [[Some 30]], coord_round = binary64,
              time_coverage_start = None\<rparr>,
      group_geophysical_data =
        Some \<lparr>variables = [(''Rrs'', [[[Some 1]]])], geo_l2_flags = [[0]]\<rparr>,
      group_sensor_band_parameters = Some \<lparr>band_wavelength = [Some 400]\<rparr>\<rparr>
     0 0 ''Rrs''
   = Inl ExtractionError"
    by (simp add: extract_granule_pixel_def distance_binary64_second argmin_def
        shape2_def unravel_index_def isel_def)
  define a :: real where "a = 4 + 1 / 2 ^ 50"
  have d: "distance binary64 0 0 (Some a) (Some 30) = Some (binary64 (sqrt 916))"
    unfolding a_def by (rule distance_binary64_first)
  have "extract_granule_pixel
     \<lparr>group_navigation_data =
        Some \<lparr>latitude = [[Some a, Some 4]],
              longitude = [[Some 30, Some 30]], coord_round = binary64,
              time_coverage_start = Some 7\<rparr>,
      group_geophysical_data =
        Some \<lparr>variables = [(''Rrs'', [[[Some 1], [Some 2]]])], geo_l2_flags = [[0, 4]]\<rparr>,
      group_sensor_band_parameters = Some \<lparr>band_wavelength = [Some 400]\<rparr>\<rparr>
     0 0 ''Rrs''
   = Inr \<lparr>data_var = ''Rrs'', spectrum = [Some 1], wavelength = [Some 400], time = 7,
          l2_flags = 0, pixel_lat = Some a, pixel_lon = Some 30\<rparr>"
    unfolding extract_granule_pixel_def
    by (simp add: d distance_binary64_second argmin_def
        shape2_def unravel_index_def isel_def)
  then show "extract_granule_pixel
     \<lparr>group_navigation_data =
        Some \<lparr>latitude = [[Some (4 + 1 / 2 ^ 50), Some 4]],
              longitude = [[Some 30, Some 30]], coord_round = binary64,
              time_coverage_start = Some 7\<rparr>,
      group_geophysical_data =
        Some \<lparr>variables = [(''Rrs'', [[[Some 1], [Some 2]]])], geo_l2_flags = [[0, 4]]\<rparr>,
      group_sensor_band_parameters = Some \<lparr>band_wavelength = [Some 400]\<rparr>\<rparr>
     0 0 ''Rrs''
   = Inr \<lparr>data_var = ''Rrs'', spectrum = [Some 1], wavelength = [Some 400], time = 7,
          l2_flags = 0, pixel_lat = Some (4 + 1 / 2 ^ 50), pixel_lon = Some 30\<rparr>"
    unfolding a_def .
  show "sqrt (4\<^sup>2 + 30\<^sup>2) < sqrt ((4 + 1 / 2 ^ 50)\<^sup>2 + 30\<^sup>2)"
    by (rule sqrt_916_less)
qed

text \<open>
  C9, as amended: for a granule that has the three groups as the spec describes them
  (latitude and longitude on one rectangular grid and the time-coverage-start attribute;
  the variable \<open>var_name\<close> and the quality flags on the same grid; a spectral vector as
  long as the wavelength axis at every pixel) and in which at least one pixel has both
  coordinates, \<open>_extract_granule_pixel\<close> returns the record of a pixel \<open>(iy, ix)\<close> of the
  grid whose distance to the target, \<open>sqrt ((lat_pix - lat)\<^sup>2 + (lon_pix - lon)\<^sup>2)\<close> as
  the floating point operations compute it, is least among the pixels that have
  coordinates. The record holds the spectral vector of \<open>var_name\<close> at \<open>(iy, ix)\<close>, the
  wavelength axis, that pixel's own latitude and longitude, its quality flags and the
  granule's time-coverage-start.
\<close>

theorem extract_granule_pixel_nearest:
  assumes groups: "group_navigation_data file_obj = Some ds_nav"
      "group_geophysical_data file_obj = Some ds_geo"
      "group_sensor_band_parameters file_obj = Some ds_band"
    and time: "time_coverage_start ds_nav = Some t"
    and grid: "\<forall>row\<in>set (latitude ds_nav). length row = npix"
      "map length (longitude ds_nav) = map length (latitude ds_nav)"
    and var: "map_of (variables ds_geo) var_name = Some v"
      "map length v = map length (latitude ds_nav)"
      "map length (geo_l2_flags ds_geo) = map length (latitude ds_nav)"
    and bands: "\<forall>row\<in>set v. \<forall>sp\<in>set row. length sp = length (band_wavelength ds_band)"
    and located: "\<exists>jy jx a b. jy < length (latitude ds_nav) \<and> jx < npix
        \<and> latitude ds_nav ! jy ! jx = Some a \<and> longitude ds_nav ! jy ! jx = Some b"
  shows "\<exists>iy ix a b d.
      iy < length (latitude ds_nav) \<and> ix < npix
    \<and> latitude ds_nav ! iy ! ix = Some a \<and> longitude ds_nav ! iy ! ix = Some b
    \<and> extract_granule_pixel file_obj lat lon var_name
        = Inr \<lparr>data_var = var_name, spectrum = v ! iy ! ix,
               wavelength = band_wavelength ds_band, time = t,
               l2_flags = geo_l2_flags ds_geo ! iy ! ix,
               pixel_lat = Some a, pixel_lon = Some b\<rparr>
    \<and> distance (coord_round ds_nav) lat lon (Some a) (Some b) = Some d
    \<and> d = coord_round ds_nav (sqrt (coord_round ds_nav
              (coord_round ds_nav ((coord_round ds_nav (a - coord_round ds_nav lat))\<^sup>2)
               + coord_round ds_nav ((coord_round ds_nav (b - coord_round ds_nav lon))\<^sup>2))))
    \<and> (\<forall>jy jx e. jy < length (latitude ds_nav) \<longrightarrow> jx < npix \<longrightarrow>
          distance (coord_round ds_nav) lat lon
            (latitude ds_nav ! jy ! jx) (longitude ds_nav ! jy ! jx) = Some e \<longrightarrow>
          d \<le> e)"
proof -
  let ?LA = "latitude ds_nav" and ?LO = "longitude ds_nav"
  let ?dist = "distance (coord_round ds_nav) lat lon"
  define D where "D = map2 (map2 ?dist) ?LA ?LO"
  have rowlen: "length (?LA ! jy) = npix" if "jy < length ?LA" for jy
    using grid(1) that by simp
  have lLO: "length ?LO = length ?LA" using grid(2) by (metis length_map)
  have lD: "length D = length ?LA" unfolding D_def using lLO by simp
  have Dnth: "D ! jy ! jx = ?dist (?LA ! jy ! jx) (?LO ! jy ! jx)"
    and Drow: "length (D ! jy) = npix" if "jy < length ?LA" "jx < npix" for jy jx
    unfolding D_def
    using map2_grid_nth [OF grid(2), of jy jx ?dist]
      map2_grid_row(3) [OF grid(2), of jy ?dist] that rowlen by simp_all
  have Drows: "\<forall>row\<in>set D. length row = npix"
  proof
    fix row assume "row \<in> set D"
    then obtain jy where jy: "jy < length D" "row = D ! jy" by (metis in_set_conv_nth)
    then have j: "jy < length ?LA" using lD by simp
    have "length (D ! jy) = length (?LA ! jy)"
      unfolding D_def by (rule map2_grid_row(3) [OF grid(2) j])
    then show "length row = npix" using jy(2) rowlen [OF j] by simp
  qed
  from located obtain jy jx a0 b0 where
    j: "jy < length ?LA" "jx < npix" "?LA ! jy ! jx = Some a0" "?LO ! jy ! jx = Some b0"
    by blast
  have "\<exists>d0. D ! jy ! jx = Some d0"
    using Dnth [OF j(1,2)] j(3,4) by (simp add: distance_def)
  moreover have "D ! jy ! jx \<in> set (concat D)"
    by (rule nth_nth_in_concat) (simp_all add: lD j Drow [OF j(1,2)])
  ultimately have "\<exists>k. argmin (concat D) = Some k" using argmin_exists by metis
  then obtain k where k: "argmin (concat D) = Some k" ..
  from argmin_Some [OF k] obtain m where
    kl: "k < length (concat D)" and km: "concat D ! k = Some m"
    and least: "\<forall>d. Some d \<in> set (concat D) \<longrightarrow> m \<le> d"
    by blast
  have kl': "k < length D * npix" using kl length_concat_rect [OF Drows] by simp
  define iy where "iy = k div npix"
  define ix where "ix = k mod npix"
  from concat_nth_rect [OF Drows kl']
  have iy: "iy < length ?LA" and ix: "ix < npix" and cm: "concat D ! k = D ! iy ! ix"
    unfolding iy_def ix_def using lD by simp_all
  have Dne: "D \<noteq> []" using iy lD by auto
  have "length (hd D) = npix" using Dne Drows by simp
  then have shape: "shape2 D = (length ?LA, npix)" using Dne lD by (simp add: shape2_def)
  have unr: "unravel_index k (shape2 D) = (iy, ix)"
    unfolding shape by (simp add: unravel_index_def iy_def ix_def)
  have dm: "?dist (?LA ! iy ! ix) (?LO ! iy ! ix) = Some m"
    using Dnth [OF iy ix] cm km by simp
  then obtain a b where ab: "?LA ! iy ! ix = Some a" "?LO ! iy ! ix = Some b"
    and m: "m = coord_round ds_nav (sqrt (coord_round ds_nav
              (coord_round ds_nav ((coord_round ds_nav (a - coord_round ds_nav lat))\<^sup>2)
               + coord_round ds_nav ((coord_round ds_nav (b - coord_round ds_nav lon))\<^sup>2))))"
    by (auto simp add: distance_def split: option.splits)
  have dab: "?dist (Some a) (Some b) = Some m" using dm ab by simp
  have lv: "length v = length ?LA" using var(2) by (metis length_map)
  have lf: "length (geo_l2_flags ds_geo) = length ?LA" using var(3) by (metis length_map)
  have vrow: "length (v ! iy) = npix"
    using var(2) iy lv rowlen [OF iy] by (metis nth_map)
  have frow: "length (geo_l2_flags ds_geo ! iy) = npix"
    using var(3) iy lf rowlen [OF iy] by (metis nth_map)
  have orow: "length (?LO ! iy) = npix"
    using grid(2) iy lLO rowlen [OF iy] by (metis nth_map)
  have s1: "isel v iy ix = Inr (v ! iy ! ix)"
    by (rule isel_in_range) (simp_all add: lv iy vrow ix)
  have s2: "isel (geo_l2_flags ds_geo) iy ix = Inr (geo_l2_flags ds_geo ! iy ! ix)"
    by (rule isel_in_range) (simp_all add: lf iy frow ix)
  have s3: "isel ?LA iy ix = Inr (Some a)"
    unfolding ab(1) [symmetric] by (rule isel_in_range) (simp_all add: iy rowlen ix)
  have s4: "isel ?LO iy ix = Inr (Some b)"
    unfolding ab(2) [symmetric] by (rule isel_in_range) (simp_all add: lLO iy orow ix)
  have "v ! iy \<in> set v" using iy lv by simp
  moreover have "v ! iy ! ix \<in> set (v ! iy)" using ix vrow by simp
  ultimately have sl: "length (v ! iy ! ix) = length (band_wavelength ds_band)"
    using bands by blast
  have res: "extract_granule_pixel file_obj lat lon var_name
        = Inr \<lparr>data_var = var_name, spectrum = v ! iy ! ix,
               wavelength = band_wavelength ds_band, time = t,
               l2_flags = geo_l2_flags ds_geo ! iy ! ix,
               pixel_lat = Some a, pixel_lon = Some b\<rparr>"
    unfolding extract_granule_pixel_def
    using groups time grid(2) k unr var(1) s1 s2 s3 s4 sl
    by (simp add: D_def [symmetric] Let_def)
  have minimal: "\<forall>jy jx e. jy < length ?LA \<longrightarrow> jx < npix \<longrightarrow>
          ?dist (?LA ! jy ! jx) (?LO ! jy ! jx) = Some e \<longrightarrow> m \<le> e"
  proof (intro allI impI)
    fix jy jx e
    assume h: "jy < length ?LA" "jx < npix" "?dist (?LA ! jy ! jx) (?LO ! jy ! jx) = Some e"
    have "D ! jy ! jx = Some e" using Dnth [OF h(1,2)] h(3) by simp
    moreover have "D ! jy ! jx \<in> set (concat D)"
      by (rule nth_nth_in_concat) (simp_all add: lD h Drow [OF h(1,2)])
    ultimately show "m \<le> e" using least by metis
  qed
  show ?thesis using iy ix ab res dab m minimal by blast
qed

theorem extract_granule_pixel_nearest_witness:
  "map length [[Some 0, Some (0::real)]] = map length [[Some 5, Some (1::real)]]
   \<and> map_of [(''Rrs'', [[[Some 1], [Some (2::real)]]])] ''Rrs'' = Some [[[Some 1], [Some 2]]]
   \<and> extract_granule_pixel
        \<lparr>group_navigation_data =
           Some \<lparr>latitude = [[Some 5, Some 1]], longitude = [[Some 0, Some 0]],
                 coord_round = id, time_coverage_start = Some 7\<rparr>,
         group_geophysical_data =
           Some \<lparr>variables = [(''Rrs'', [[[Some 1], [Some 2]]])], geo_l2_flags = [[0, 4]]\<rparr>,
         group_sensor_band_parameters = Some \<lparr>band_wavelength = [Some 400]\<rparr>\<rparr>
        0 0 ''Rrs''
      = Inr \<lparr>data_var = ''Rrs'', spectrum = [Some 2], wavelength = [Some 400], time = 7,
             l2_flags = 4, pixel_lat = Some 1, pixel_lon = Some 0\<rparr>"
proof -
  let ?nav = "\<lparr>latitude = [[Some 5, Some 1]], longitude = [[Some 0, Some 0]],
                 coord_round = id, time_coverage_start = Some 7\<rparr>"
  let ?geo = "\<lparr>variables = [(''Rrs'', [[[Some 1], [Some 2]]])], geo_l2_flags = [[0, 4]]\<rparr>"
  let ?band = "\<lparr>band_wavelength = [Some 400]\<rparr>"
  let ?f = "\<lparr>group_navigation_data = Some ?nav, group_geophysical_data = Some ?geo,
             group_sensor_band_parameters = Some ?band\<rparr>"
  have groups: "group_navigation_data ?f = Some ?nav" "group_geophysical_data ?f = Some ?geo"
    "group_sensor_band_parameters ?f = Some ?band" by simp_all
  have time: "time_coverage_start ?nav = Some 7" by simp
  have grid: "\<forall>row\<in>set (latitude ?nav). length row = 2"
    "map length (longitude ?nav) = map length (latitude ?nav)" by simp_all
  have var: "map_of (variables ?geo) ''Rrs'' = Some [[[Some 1], [Some 2]]]"
    "map length [[[Some 1], [Some (2::real)]]] = map length (latitude ?nav)"
    "map length (geo_l2_flags ?geo) = map length (latitude ?nav)" by simp_all
  have bands: "\<forall>row\<in>set [[[Some 1], [Some (2::real)]]]. \<forall>sp\<in>set row.
      length sp = length (band_wavelength ?band)" by simp
  have located: "\<exists>jy jx a b. jy < length (latitude ?nav) \<and> jx < 2
        \<and> latitude ?nav ! jy ! jx = Some a \<and> longitude ?nav ! jy ! jx = Some b"
    by (rule exI [of _ 0], rule exI [of _ 0]) simp
  from extract_granule_pixel_nearest [OF groups time grid var bands located, of 0 0]
  obtain iy ix a b d where
    r: "iy < 1" "ix < 2" "latitude ?nav ! iy ! ix = Some a" "longitude ?nav ! iy ! ix = Some b"
      "extract_granule_pixel ?f 0 0 ''Rrs''
        = Inr \<lparr>data_var = ''Rrs'', spectrum = [[[Some 1], [Some 2]]] ! iy ! ix,
               wavelength = band_wavelength ?band, time = 7,
               l2_flags = geo_l2_flags ?geo ! iy ! ix,
               pixel_lat = Some a, pixel_lon = Some b\<rparr>"
      "distance id 0 0 (Some a) (Some b) = Some d"
    and least: "\<forall>jy jx e. jy < length (latitude ?nav) \<longrightarrow> jx < 2 \<longrightarrow>
          distance (coord_round ?nav) 0 0 (latitude ?nav ! jy ! jx) (longitude ?nav ! jy ! jx)
            = Some e \<longrightarrow> d \<le> e"
    by auto
  have iy: "iy = 0" using r(1) by simp
  have "ix \<noteq> 0"
  proof
    assume "ix = 0"
    then have "a = 5" "b = 0" using r(3,4) iy by simp_all
    then have "d = 5" using r(6) by (simp add: distance_def)
    moreover have "d \<le> 1"
      using least [rule_format, of 0 1 1] by (simp add: distance_def)
    ultimately show False by simp
  qed
  then have ix: "ix = 1" using r(2) by simp
  then have "a = 1" "b = 0" using r(3,4) iy by simp_all
  then show ?thesis using r(5) unfolding iy ix by simp
qed

end
